theory Spec2Isabelle
  imports Complex_Main "HOL-Library.AList" "HOL-Library.Multiset"
begin

text \<open>
  A shallow embedding of the point-in-time portfolio pipeline of the repository:
  \<^verbatim>\<open>portfolio_creation.py\<close> (rule screening, ranking, placeholder portfolio),
  \<^verbatim>\<open>portfolio_weighting.py\<close> (the four weighting schemes) and \<^verbatim>\<open>backtester.py\<close>
  (daily portfolio returns and annualised metrics).

  The database is a record of tables, each table a list of rows.  A statement that the
  server rejects is an error of the call.  The order in which a \<^verbatim>\<open>SELECT DISTINCT\<close>
  without \<^verbatim>\<open>ORDER BY\<close> returns its rows is the server's choice and is a parameter.
  Numbers stored in the database are finite and modelled as reals.  The results of pandas
  and numpy arithmetic are values of type \<open>fval\<close>: a real number, or one of the three
  non-finite floats.  Rounding, overflow and signed zeros are not modelled.
\<close>

section \<open>Python values\<close>

text \<open>\<^verbatim>\<open>str(i)\<close> for an integer: decimal digits, a leading minus sign for a negative number.\<close>

definition digit_char :: "nat \<Rightarrow> char" where
  "digit_char n = ''0123456789'' ! n"

fun digits :: "nat \<Rightarrow> string" where
  "digits n = (if n < 10 then [digit_char n] else digits (n div 10) @ [digit_char (n mod 10)])"

declare digits.simps [simp del]

definition str_int :: "int \<Rightarrow> string" where
  "str_int i = (if i < 0 then CHR ''-'' # digits (nat (- i)) else digits (nat i))"

text \<open>\<^verbatim>\<open>s.endswith(t)\<close>; the SQL \<^verbatim>\<open>LIKE '%' || t\<close> agrees with it on digit strings.\<close>

definition endswith :: "string \<Rightarrow> string \<Rightarrow> bool" where
  "endswith s t = (length t \<le> length s \<and> drop (length s - length t) s = t)"

text \<open>
  A Python dict is an association list in insertion order: storing under a key that is
  present replaces the value in place, storing under a new key appends.
\<close>

definition dict_of :: "('k \<times> 'v) list \<Rightarrow> ('k \<times> 'v) list" where
  "dict_of kvs = foldl (\<lambda>d (k, v). AList.update k v d) [] kvs"

definition dict_get :: "('k \<times> 'v) list \<Rightarrow> 'k \<Rightarrow> 'v \<Rightarrow> 'v" where
  "dict_get d k dflt = (case map_of d k of None \<Rightarrow> dflt | Some v \<Rightarrow> v)"

text \<open>
  The exceptions the modelled code can raise.  \<open>Unmodelled\<close> is not an exception: it marks
  inputs whose treatment by the database server lies outside this model.
\<close>

datatype error =
  ValueError | OverflowError | MultipleResultsFound | DataError | ProgrammingError | Unmodelled

section \<open>The tables of \<^verbatim>\<open>db_schema.py\<close>\<close>

text \<open>
  Only the columns the pipeline reads are kept.  Surrogate row ids are left out.  Dates
  are proleptic Gregorian ordinals (\<^verbatim>\<open>date.toordinal()\<close>).
\<close>

record Metric =
  metric_id :: int
  metric_name :: string

record Financial =
  fin_company_id :: int
  fin_metric_id :: int
  period_label :: string
  fin_value :: real

record Price =
  price_company_id :: int
  price_date :: int
  price_close :: real

text \<open>One entry of \<^verbatim>\<open>rule_json["filters"]\<close>; the code reads only these three keys.\<close>

record FilterClause =
  f_name :: string
  f_sign :: string
  f_threshold :: real

text \<open>\<open>rule_filters\<close> is \<^verbatim>\<open>rule.rule_json.get("filters", [])\<close>.\<close>

record Rule =
  rule_id :: int
  rule_filters :: "FilterClause list"

record YearlyPortfolio =
  yp_rule_id :: int
  yp_year :: int
  yp_weights :: "(string \<times> real) list"

record db =
  companies :: "int list"
  metrics :: "Metric list"
  financials :: "Financial list"
  prices :: "Price list"
  yearly_portfolios :: "YearlyPortfolio list"

text \<open>\<^verbatim>\<open>session.query(Metric).filter(Metric.name == nm).first()\<close>\<close>

definition first_metric :: "db \<Rightarrow> string \<Rightarrow> Metric option" where
  "first_metric d nm =
     (case filter (\<lambda>m. metric_name m = nm) (metrics d) of [] \<Rightarrow> None | m # _ \<Rightarrow> Some m)"

section \<open>\<^verbatim>\<open>portfolio_creation.py\<close>\<close>

text \<open>
  \<^verbatim>\<open>get_market_cap_for_sorting\<close>: the dict \<^verbatim>\<open>{f.company_id: f.value for f in financials}\<close>
  over the market-cap facts whose period label ends with \<^verbatim>\<open>str(year - 1)\<close>.
\<close>

definition get_market_cap_for_sorting :: "db \<Rightarrow> int list \<Rightarrow> int \<Rightarrow> (int \<times> real) list" where
  "get_market_cap_for_sorting d company_ids year =
     (if company_ids = [] then []
      else case first_metric d ''market_cap'' of
        None \<Rightarrow> dict_of (map (\<lambda>cid. (cid, 0)) company_ids)
      | Some market_cap_metric \<Rightarrow>
          dict_of (map (\<lambda>f. (fin_company_id f, fin_value f))
            (filter (\<lambda>f. fin_company_id f \<in> set company_ids
                        \<and> fin_metric_id f = metric_id market_cap_metric
                        \<and> endswith (period_label f) (str_int (year - 1)))
              (financials d))))"

text \<open>
  The expression \<^verbatim>\<open>join_condition\<close> that the loop builds for clause \<open>f\<close>, as a condition on
  a company id, a row of \<^verbatim>\<open>financials\<close> (the alias \<^verbatim>\<open>financial_alias\<close>) and a row of
  \<^verbatim>\<open>metrics\<close> (the alias \<^verbatim>\<open>metric_alias\<close>).
\<close>

definition join_condition :: "FilterClause \<Rightarrow> int \<Rightarrow> int \<Rightarrow> Financial \<Rightarrow> Metric \<Rightarrow> bool" where
  "join_condition f year cid r m =
     (cid = fin_company_id r
      \<and> fin_metric_id r = metric_id m
      \<and> metric_name m = f_name f
      \<and> endswith (period_label r) (str_int (year - 1)))"

text \<open>
  The expression \<^verbatim>\<open>filter_condition\<close> on the value of the joined fact: the \<^verbatim>\<open>if/elif\<close>
  chain on \<^verbatim>\<open>f["sign"]\<close>; \<open>None\<close> is the \<^verbatim>\<open>else: continue\<close> branch.
\<close>

definition filter_condition :: "FilterClause \<Rightarrow> (real \<Rightarrow> bool) option" where
  "filter_condition f =
     (if f_sign f = ''>'' then Some (\<lambda>v. v > f_threshold f)
      else if f_sign f = ''<'' then Some (\<lambda>v. v < f_threshold f)
      else if f_sign f = ''>='' then Some (\<lambda>v. v \<ge> f_threshold f)
      else if f_sign f = ''<='' then Some (\<lambda>v. v \<le> f_threshold f)
      else None)"

text \<open>
  The query under construction, \<^verbatim>\<open>session.query(Company.id)\<close> with the joins added so
  far: each \<^verbatim>\<open>q.join(financial_alias, join_condition).filter(filter_condition)\<close> adds one
  pair of an ON condition and a condition on the value.
\<close>

type_synonym query = "((int \<Rightarrow> Financial \<Rightarrow> Metric \<Rightarrow> bool) \<times> (real \<Rightarrow> bool)) list"

fun build_query :: "int \<Rightarrow> query \<Rightarrow> FilterClause list \<Rightarrow> query" where
  "build_query year q [] = q"
| "build_query year q (f # fs) =
     (case filter_condition f of
        None \<Rightarrow> build_query year q fs
      | Some cond \<Rightarrow> build_query year (q @ [(join_condition f year, cond)]) fs)"

text \<open>
  \<^verbatim>\<open>q.distinct().all()\<close>.  Every ON condition names \<^verbatim>\<open>metric_alias\<close>, which the statement
  neither joins nor selects from, so the server rejects a statement with at least one
  join and the call raises; no row of \<^verbatim>\<open>financials\<close> is read.  Without a join the
  statement selects every company id.  The server returns the ids in an order of its
  choice: \<open>row_order\<close> gives the position of each id.
\<close>

definition run_query :: "(int \<Rightarrow> int) \<Rightarrow> db \<Rightarrow> query \<Rightarrow> error + int list" where
  "run_query row_order d q =
     (case q of
        [] \<Rightarrow> Inr (sort_key row_order (remdups (companies d)))
      | j # js \<Rightarrow> Inl ProgrammingError)"

text \<open>
  \<^verbatim>\<open>list.sort(key=..., reverse=True)\<close>: a stable sort into descending key order, written
  as an insertion sort.
\<close>

fun insort_reverse :: "('a \<Rightarrow> real) \<Rightarrow> 'a \<Rightarrow> 'a list \<Rightarrow> 'a list" where
  "insort_reverse key x [] = [x]"
| "insort_reverse key x (y # ys) =
     (if key x < key y then y # insort_reverse key x ys else x # y # ys)"

definition sort_reverse :: "('a \<Rightarrow> real) \<Rightarrow> 'a list \<Rightarrow> 'a list" where
  "sort_reverse key xs = foldr (insort_reverse key) xs []"

text \<open>
  The ranking and truncation of the eligible list: the market caps are fetched, the list
  is sorted by \<^verbatim>\<open>market_caps.get(cid, 0)\<close>, descending, and cut to its first 20 entries.
\<close>

definition rank_top :: "db \<Rightarrow> int list \<Rightarrow> int \<Rightarrow> int list" where
  "rank_top d eligible_company_ids year =
     (let market_caps = get_market_cap_for_sorting d eligible_company_ids year
      in take 20 (sort_reverse (\<lambda>cid. dict_get market_caps cid 0) eligible_company_ids))"

text \<open>The list \<^verbatim>\<open>top_company_ids\<close> of \<^verbatim>\<open>generate_portfolio\<close>, for a non-empty filter list.\<close>

definition top_company_ids ::
  "(int \<Rightarrow> int) \<Rightarrow> db \<Rightarrow> FilterClause list \<Rightarrow> int \<Rightarrow> error + int list" where
  "top_company_ids row_order d fs year =
     (case run_query row_order d (build_query year [] fs) of
        Inl e \<Rightarrow> Inl e
      | Inr eligible_company_ids \<Rightarrow> Inr (rank_top d eligible_company_ids year))"

definition portfolio_weights_placeholder :: "int list \<Rightarrow> (string \<times> real) list" where
  "portfolio_weights_placeholder top_ids = dict_of (map (\<lambda>cid. (str_int cid, 0)) top_ids)"

text \<open>
  The update-or-insert at the end of \<^verbatim>\<open>generate_portfolio\<close>.  \<^verbatim>\<open>one_or_none()\<close> raises
  when more than one row matches.
\<close>

definition save_portfolio :: "int \<Rightarrow> int \<Rightarrow> (string \<times> real) list \<Rightarrow> db \<Rightarrow> error + db" where
  "save_portfolio rid year placeholder d =
     (case filter (\<lambda>p. yp_rule_id p = rid \<and> yp_year p = year) (yearly_portfolios d) of
        [] \<Rightarrow> Inr (d\<lparr>yearly_portfolios := yearly_portfolios d @
                 [\<lparr>yp_rule_id = rid, yp_year = year, yp_weights = placeholder\<rparr>]\<rparr>)
      | [existing_portfolio] \<Rightarrow>
          Inr (d\<lparr>yearly_portfolios :=
                 map (\<lambda>p. if yp_rule_id p = rid \<and> yp_year p = year
                          then p\<lparr>yp_weights := placeholder\<rparr> else p) (yearly_portfolios d)\<rparr>)
      | _ \<Rightarrow> Inl MultipleResultsFound)"

text \<open>
  \<^verbatim>\<open>generate_portfolio\<close> returns the selected ids together with the database it leaves.
  An exception leaves the database as it was: nothing is committed before the end.
\<close>

definition generate_portfolio ::
  "(int \<Rightarrow> int) \<Rightarrow> Rule \<Rightarrow> int \<Rightarrow> db \<Rightarrow> error + (int list \<times> db)" where
  "generate_portfolio row_order rule year d =
     (if rule_filters rule = [] then Inr ([], d)
      else
        (case top_company_ids row_order d (rule_filters rule) year of
           Inl e \<Rightarrow> Inl e
         | Inr top_ids \<Rightarrow>
             if top_ids = [] then Inr ([], d)
             else
               (case save_portfolio (rule_id rule) year (portfolio_weights_placeholder top_ids) d of
                  Inl e \<Rightarrow> Inl e
                | Inr d' \<Rightarrow> Inr (top_ids, d'))))"

text \<open>The database with its \<^verbatim>\<open>financials\<close> table cut down to the rows of the lagged year.\<close>

definition lagged_facts_only :: "db \<Rightarrow> int \<Rightarrow> db" where
  "lagged_facts_only d year =
     d\<lparr>financials := filter (\<lambda>r. endswith (period_label r) (str_int (year - 1))) (financials d)\<rparr>"

section \<open>Floats, pandas reductions and dates\<close>

text \<open>
  A float that pandas or numpy computes: a real number, not-a-number, or an infinity.
  Division by zero gives an infinity of the sign of the numerator, or not-a-number for
  \<open>0 / 0\<close>, as numpy does (with a warning, not an exception).
\<close>

datatype fval = Num real | NaN | PInf | NInf

fun fneg :: "fval \<Rightarrow> fval" where
  "fneg (Num a) = Num (- a)"
| "fneg NaN = NaN"
| "fneg PInf = NInf"
| "fneg NInf = PInf"

fun fadd :: "fval \<Rightarrow> fval \<Rightarrow> fval" where
  "fadd (Num a) (Num b) = Num (a + b)"
| "fadd NaN _ = NaN"
| "fadd _ NaN = NaN"
| "fadd PInf NInf = NaN"
| "fadd NInf PInf = NaN"
| "fadd PInf _ = PInf"
| "fadd _ PInf = PInf"
| "fadd NInf _ = NInf"
| "fadd _ NInf = NInf"

definition fsub :: "fval \<Rightarrow> fval \<Rightarrow> fval" where
  "fsub a b = fadd a (fneg b)"

fun fmul :: "fval \<Rightarrow> fval \<Rightarrow> fval" where
  "fmul (Num a) (Num b) = Num (a * b)"
| "fmul NaN _ = NaN"
| "fmul _ NaN = NaN"
| "fmul (Num a) PInf = (if a = 0 then NaN else if a > 0 then PInf else NInf)"
| "fmul (Num a) NInf = (if a = 0 then NaN else if a > 0 then NInf else PInf)"
| "fmul PInf (Num b) = (if b = 0 then NaN else if b > 0 then PInf else NInf)"
| "fmul NInf (Num b) = (if b = 0 then NaN else if b > 0 then NInf else PInf)"
| "fmul PInf PInf = PInf"
| "fmul NInf NInf = PInf"
| "fmul PInf NInf = NInf"
| "fmul NInf PInf = NInf"

fun fdiv :: "fval \<Rightarrow> fval \<Rightarrow> fval" where
  "fdiv (Num a) (Num b) =
     (if b \<noteq> 0 then Num (a / b) else if a = 0 then NaN else if a > 0 then PInf else NInf)"
| "fdiv NaN _ = NaN"
| "fdiv _ NaN = NaN"
| "fdiv (Num a) PInf = Num 0"
| "fdiv (Num a) NInf = Num 0"
| "fdiv PInf (Num b) = (if b \<ge> 0 then PInf else NInf)"
| "fdiv NInf (Num b) = (if b \<ge> 0 then NInf else PInf)"
| "fdiv PInf PInf = NaN"
| "fdiv PInf NInf = NaN"
| "fdiv NInf PInf = NaN"
| "fdiv NInf NInf = NaN"

text \<open>\<open>x > c\<close> and \<open>x < c\<close> for a float \<open>x\<close>; every comparison with not-a-number is false.\<close>

fun fgt :: "fval \<Rightarrow> real \<Rightarrow> bool" where
  "fgt (Num a) c = (a > c)"
| "fgt PInf c = True"
| "fgt NInf c = False"
| "fgt NaN c = False"

fun flt :: "fval \<Rightarrow> real \<Rightarrow> bool" where
  "flt (Num a) c = (a < c)"
| "flt NInf c = True"
| "flt PInf c = False"
| "flt NaN c = False"

fun fle :: "fval \<Rightarrow> fval \<Rightarrow> bool" where
  "fle NaN _ = False"
| "fle _ NaN = False"
| "fle NInf _ = True"
| "fle _ PInf = True"
| "fle (Num a) (Num b) = (a \<le> b)"
| "fle PInf _ = False"
| "fle (Num a) NInf = False"

text \<open>\<^verbatim>\<open>dropna()\<close>, and the reductions of a pandas Series, which skip not-a-number.\<close>

definition dropna :: "fval list \<Rightarrow> fval list" where
  "dropna xs = filter (\<lambda>x. x \<noteq> NaN) xs"

definition pd_sum :: "fval list \<Rightarrow> fval" where
  "pd_sum xs = foldl fadd (Num 0) (dropna xs)"

definition pd_mean :: "fval list \<Rightarrow> fval" where
  "pd_mean xs =
     (let ys = dropna xs in
      if ys = [] then NaN else fdiv (foldl fadd (Num 0) ys) (Num (real (length ys))))"

fun finsort :: "fval \<Rightarrow> fval list \<Rightarrow> fval list" where
  "finsort x [] = [x]"
| "finsort x (y # ys) = (if fle x y then x # y # ys else y # finsort x ys)"

definition pd_median :: "fval list \<Rightarrow> fval" where
  "pd_median xs =
     (let ys = foldr finsort (dropna xs) []; n = length ys in
      if n = 0 then NaN
      else if odd n then ys ! (n div 2)
      else fdiv (fadd (ys ! (n div 2 - 1)) (ys ! (n div 2))) (Num 2))"

fun the_num :: "fval \<Rightarrow> real" where
  "the_num (Num a) = a"
| "the_num _ = 0"

text \<open>
  \<^verbatim>\<open>std()\<close>: the sample standard deviation (\<^verbatim>\<open>ddof=1\<close>) of the values that are not
  not-a-number; not-a-number when fewer than two remain, or when one is infinite.
\<close>

definition pd_std :: "fval list \<Rightarrow> fval" where
  "pd_std xs =
     (let ys = dropna xs; n = length ys in
      if n < 2 then NaN
      else if PInf \<in> set ys \<or> NInf \<in> set ys then NaN
      else
        (let rs = map the_num ys; m = sum_list rs / real n
         in Num (sqrt (sum_list (map (\<lambda>r. (r - m)\<^sup>2) rs) / real (n - 1)))))"

text \<open>\<^verbatim>\<open>pct_change()\<close>: each entry over the one before it, minus one; the first is undefined.\<close>

fun pct_from :: "fval \<Rightarrow> fval list \<Rightarrow> fval list" where
  "pct_from prev [] = []"
| "pct_from prev (x # xs) = fsub (fdiv x prev) (Num 1) # pct_from x xs"

fun pct_change :: "fval list \<Rightarrow> fval list" where
  "pct_change [] = []"
| "pct_change (x # xs) = NaN # pct_from x xs"

text \<open>\<^verbatim>\<open>tail(n)\<close>: the last \<open>n\<close> entries; for a negative \<open>n\<close>, all but the first \<open>-n\<close>.\<close>

definition tail :: "int \<Rightarrow> 'a list \<Rightarrow> 'a list" where
  "tail n xs =
     (if n = 0 then []
      else if n > 0 then drop (length xs - nat n) xs
      else drop (nat (- n)) xs)"

text \<open>
  \<^verbatim>\<open>date(year, 1, 1)\<close> as an ordinal; \<^verbatim>\<open>timedelta(days=n)\<close>; \<^verbatim>\<open>date - timedelta\<close>.  Python
  dates run from ordinal 1 (year 1) to 3652059 (the last day of year 9999).
\<close>

definition days_before_year :: "int \<Rightarrow> int" where
  "days_before_year y = (y - 1) * 365 + (y - 1) div 4 - (y - 1) div 100 + (y - 1) div 400"

definition date_jan1 :: "int \<Rightarrow> error + int" where
  "date_jan1 year =
     (if 1 \<le> year \<and> year \<le> 9999 then Inr (days_before_year year + 1) else Inl ValueError)"

definition timedelta :: "int \<Rightarrow> error + int" where
  "timedelta days =
     (if - 999999999 \<le> days \<and> days \<le> 999999999 then Inr days else Inl OverflowError)"

definition date_sub :: "int \<Rightarrow> int \<Rightarrow> error + int" where
  "date_sub dt days =
     (if 1 \<le> dt - days \<and> dt - days \<le> 3652059 then Inr (dt - days) else Inl OverflowError)"

text \<open>
  \<^verbatim>\<open>end_date = date(year, 1, 1) - timedelta(days=1)\<close> and
  \<^verbatim>\<open>start_date = end_date - timedelta(days=n)\<close>.
\<close>

definition lagged_window :: "int \<Rightarrow> int \<Rightarrow> error + (int \<times> int)" where
  "lagged_window year n =
     (case date_jan1 year of Inl e \<Rightarrow> Inl e | Inr jan1 \<Rightarrow>
      case date_sub jan1 1 of Inl e \<Rightarrow> Inl e | Inr end_date \<Rightarrow>
      case timedelta n of Inl e \<Rightarrow> Inl e | Inr td \<Rightarrow>
      case date_sub end_date td of Inl e \<Rightarrow> Inl e | Inr start_date \<Rightarrow>
      Inr (start_date, end_date))"

text \<open>\<^verbatim>\<open>int(lookback * 1.5)\<close>: truncation towards zero.\<close>

definition int_times_1_5 :: "int \<Rightarrow> int" where
  "int_times_1_5 n = (if n \<ge> 0 then (3 * n) div 2 else - ((3 * (- n)) div 2))"

section \<open>\<^verbatim>\<open>portfolio_weighting.py\<close>\<close>

text \<open>
  A pandas Series is a list of (label, value) pairs in index order.
  \<^verbatim>\<open>pd.Series(c, index=ids)\<close> repeats \<open>c\<close>; \<^verbatim>\<open>series / x\<close> divides every value.
\<close>

definition series_const :: "fval \<Rightarrow> 'k list \<Rightarrow> ('k \<times> fval) list" where
  "series_const c ids = map (\<lambda>k. (k, c)) ids"

definition series_div :: "('k \<times> fval) list \<Rightarrow> fval \<Rightarrow> ('k \<times> fval) list" where
  "series_div s x = map (\<lambda>(k, v). (k, fdiv v x)) s"

text \<open>
  \<^verbatim>\<open>s.reindex(target, fill_value=c)\<close>: the Series itself when its index equals the target;
  an error when its index has a label twice; otherwise the value at each target label, or
  \<open>c\<close> where the label is missing.
\<close>

definition reindex :: "('k \<times> fval) list \<Rightarrow> 'k list \<Rightarrow> fval \<Rightarrow> error + ('k \<times> fval) list" where
  "reindex s target c =
     (if map fst s = target then Inr s
      else if \<not> distinct (map fst s) then Inl ValueError
      else Inr (map (\<lambda>k. (k, dict_get s k c)) target))"

text \<open>\<^verbatim>\<open>{str(k): v for k, v in weights.to_dict().items()}\<close>\<close>

definition str_keys :: "(int \<times> fval) list \<Rightarrow> (string \<times> fval) list" where
  "str_keys weights = dict_of (map (\<lambda>(k, v). (str_int k, v)) (dict_of weights))"

definition get_market_caps :: "db \<Rightarrow> int list \<Rightarrow> int \<Rightarrow> error + (int \<times> fval) list" where
  "get_market_caps d company_ids year =
     (case first_metric d ''market_cap'' of
        None \<Rightarrow> Inr (series_const (Num 1) company_ids)
      | Some market_cap_metric \<Rightarrow>
          (let df = filter (\<lambda>f. fin_company_id f \<in> set company_ids
                               \<and> endswith (period_label f) (str_int (year - 1))
                               \<and> fin_metric_id f = metric_id market_cap_metric)
                      (financials d)
           in if df = [] then Inr (series_const (Num 1) company_ids)
              else reindex (map (\<lambda>f. (fin_company_id f, Num (fin_value f))) df)
                     company_ids (Num 1)))"

text \<open>The price rows of the listed companies dated within the window, both ends included.\<close>

definition price_window :: "db \<Rightarrow> int list \<Rightarrow> int \<Rightarrow> int \<Rightarrow> Price list" where
  "price_window d company_ids start_date end_date =
     filter (\<lambda>p. price_company_id p \<in> set company_ids
                \<and> start_date \<le> price_date p \<and> price_date p \<le> end_date)
       (prices d)"

text \<open>
  \<^verbatim>\<open>df[df['company_id'] == cid].sort_values('date')['close']\<close>.  A company has at most
  one price row per date (a uniqueness constraint of the table), so the order is determined.
\<close>

definition closes_of :: "Price list \<Rightarrow> int \<Rightarrow> real list" where
  "closes_of df cid =
     map price_close (sort_key price_date (filter (\<lambda>p. price_company_id p = cid) df))"

text \<open>The value \<^verbatim>\<open>vol_dict[cid]\<close> inside the loop of \<^verbatim>\<open>get_volatility\<close>.\<close>

definition company_vol :: "Price list \<Rightarrow> int \<Rightarrow> int \<Rightarrow> fval" where
  "company_vol df lookback cid =
     (let prices = tail lookback (closes_of df cid) in
      if length prices < 2 then Num (2 / 10)
      else fmul (pd_std (dropna (pct_change (map Num prices)))) (Num (sqrt 252)))"

definition get_volatility :: "db \<Rightarrow> int list \<Rightarrow> int \<Rightarrow> int \<Rightarrow> error + (int \<times> fval) list" where
  "get_volatility d company_ids year lookback =
     (case lagged_window year (int_times_1_5 lookback) of
        Inl e \<Rightarrow> Inl e
      | Inr (start_date, end_date) \<Rightarrow>
          (let df = price_window d company_ids start_date end_date in
           if df = [] then Inr (series_const (Num 1) company_ids)
           else Inr (dict_of (map (\<lambda>cid. (cid, company_vol df lookback cid)) company_ids))))"

text \<open>The value \<^verbatim>\<open>mom_dict[cid]\<close> inside the momentum branch.\<close>

definition company_mom :: "Price list \<Rightarrow> int \<Rightarrow> fval" where
  "company_mom df cid =
     (let prices = closes_of df cid in
      if length prices < 2 then Num 0
      else fsub (fdiv (Num (last prices)) (Num (hd prices))) (Num 1))"

text \<open>\<^verbatim>\<open>mom_series[mom_series < 0] = 0\<close>\<close>

definition clamp_negative :: "('k \<times> fval) list \<Rightarrow> ('k \<times> fval) list" where
  "clamp_negative s = map (\<lambda>(k, v). (k, if flt v 0 then Num 0 else v)) s"

definition mom_series :: "db \<Rightarrow> int list \<Rightarrow> int \<Rightarrow> int \<Rightarrow> error + (int \<times> fval) list" where
  "mom_series d company_ids year momentum_period =
     (case lagged_window year momentum_period of
        Inl e \<Rightarrow> Inl e
      | Inr (start_date, end_date) \<Rightarrow>
          (let df = price_window d company_ids start_date end_date in
           Inr (clamp_negative (dict_of (map (\<lambda>cid. (cid, company_mom df cid)) company_ids)))))"

definition compute_weights ::
  "db \<Rightarrow> int list \<Rightarrow> int \<Rightarrow> string \<Rightarrow> int \<Rightarrow> int \<Rightarrow> error + (string \<times> fval) list" where
  "compute_weights d company_ids year scheme lookback_vol momentum_period =
     (if company_ids = [] then Inr []
      else if scheme = ''equal'' then
        (let str_company_ids = map str_int company_ids; n = length str_company_ids
         in Inr (dict_of (map (\<lambda>cid. (cid, Num (1 / real n))) str_company_ids)))
      else if scheme = ''market_cap'' then
        (case get_market_caps d company_ids year of
           Inl e \<Rightarrow> Inl e
         | Inr mcaps \<Rightarrow> Inr (str_keys (series_div mcaps (pd_sum (map snd mcaps)))))
      else if scheme = ''inverse_vol'' then
        (case get_volatility d company_ids year lookback_vol of
           Inl e \<Rightarrow> Inl e
         | Inr vols \<Rightarrow>
             (let inv_vols = map (\<lambda>(k, v). (k, fdiv (Num 1) (fadd v (Num (1 / 10 ^ 8))))) vols
              in Inr (str_keys (series_div inv_vols (pd_sum (map snd inv_vols))))))
      else if scheme = ''momentum'' then
        (case mom_series d company_ids year momentum_period of
           Inl e \<Rightarrow> Inl e
         | Inr mom \<Rightarrow>
             (if fgt (pd_sum (map snd mom)) 0
              then Inr (str_keys (series_div mom (pd_sum (map snd mom))))
              else Inr (str_keys (series_const (Num (1 / real (length company_ids))) company_ids))))
      else Inl ValueError)"

text \<open>\<^verbatim>\<open>sum(weights.values())\<close>: the plain float sum of a weight mapping.\<close>

definition py_sum :: "fval list \<Rightarrow> fval" where
  "py_sum xs = foldl fadd (Num 0) xs"

text \<open>
  Conditions on the data under which a scheme yields weights that are numbers.

  \<open>market_caps_usable\<close>: no listed company has two market-cap facts of the lagged year,
  no such fact is negative, and either there is no such fact, or one is positive, or a
  listed company has none (and so counts as 1.0).
\<close>

definition market_caps_usable :: "db \<Rightarrow> int list \<Rightarrow> int \<Rightarrow> bool" where
  "market_caps_usable d company_ids year =
     (case first_metric d ''market_cap'' of
        None \<Rightarrow> True
      | Some market_cap_metric \<Rightarrow>
          (let df = filter (\<lambda>f. fin_company_id f \<in> set company_ids
                               \<and> endswith (period_label f) (str_int (year - 1))
                               \<and> fin_metric_id f = metric_id market_cap_metric)
                      (financials d)
           in distinct (map fin_company_id df)
              \<and> (\<forall>f \<in> set df. 0 \<le> fin_value f)
              \<and> (df = [] \<or> (\<exists>f \<in> set df. 0 < fin_value f)
                  \<or> (\<exists>cid \<in> set company_ids. cid \<notin> fin_company_id ` set df))))"

text \<open>
  \<open>volatilities_usable\<close>: the window's dates exist, no close in the window is zero, and no
  listed company has exactly 2 closes among the last \<open>lookback\<close> rows of the window.
\<close>

definition volatilities_usable :: "db \<Rightarrow> int list \<Rightarrow> int \<Rightarrow> int \<Rightarrow> bool" where
  "volatilities_usable d company_ids year lookback =
     (case lagged_window year (int_times_1_5 lookback) of
        Inl e \<Rightarrow> False
      | Inr (start_date, end_date) \<Rightarrow>
          (let df = price_window d company_ids start_date end_date
           in (\<forall>p \<in> set df. price_close p \<noteq> 0)
              \<and> (\<forall>cid \<in> set company_ids. length (tail lookback (closes_of df cid)) \<noteq> 2)))"

text \<open>
  \<open>momentum_usable\<close>: the window's dates exist, and the first close in the window of a
  listed company with at least 2 closes is not zero.
\<close>

definition momentum_usable :: "db \<Rightarrow> int list \<Rightarrow> int \<Rightarrow> int \<Rightarrow> bool" where
  "momentum_usable d company_ids year momentum_period =
     (case lagged_window year momentum_period of
        Inl e \<Rightarrow> False
      | Inr (start_date, end_date) \<Rightarrow>
          (let df = price_window d company_ids start_date end_date
           in \<forall>cid \<in> set company_ids.
                2 \<le> length (closes_of df cid) \<longrightarrow> hd (closes_of df cid) \<noteq> 0))"

section \<open>\<^verbatim>\<open>backtester.py\<close>\<close>

text \<open>
  A key of the weight mapping as Python sees it: an integer or a string.  Two keys of
  different kinds are never equal, so \<^verbatim>\<open>'1' in Index([1])\<close> is false.
\<close>

datatype pykey = IntKey int | StrKey string

text \<open>
  The database compares \<^verbatim>\<open>prices.company_id\<close> with each key of the \<^verbatim>\<open>IN\<close> list as an
  integer.  A string key is cast: an optional minus sign and decimal digits, within the
  range of a 32-bit integer.  Any other string is taken to be an error of the cast.
\<close>

fun index_of :: "'a \<Rightarrow> 'a list \<Rightarrow> nat option" where
  "index_of x [] = None"
| "index_of x (y # ys) = (if x = y then Some 0 else map_option Suc (index_of x ys))"

definition digit_val :: "char \<Rightarrow> nat option" where
  "digit_val c = index_of c ''0123456789''"

fun parse_digits :: "nat \<Rightarrow> string \<Rightarrow> nat option" where
  "parse_digits acc [] = Some acc"
| "parse_digits acc (c # cs) =
     (case digit_val c of None \<Rightarrow> None | Some v \<Rightarrow> parse_digits (acc * 10 + v) cs)"

definition int_of_str :: "string \<Rightarrow> int option" where
  "int_of_str s =
     (case s of
        [] \<Rightarrow> None
      | c # cs \<Rightarrow>
          (if c = CHR ''-''
           then (if cs = [] then None else map_option (\<lambda>n. - int n) (parse_digits 0 cs))
           else map_option int (parse_digits 0 s)))"

fun sql_int :: "pykey \<Rightarrow> int option" where
  "sql_int (IntKey i) = Some i"
| "sql_int (StrKey s) =
     (case int_of_str s of
        None \<Rightarrow> None
      | Some i \<Rightarrow> if - (2 ^ 31) \<le> i \<and> i < 2 ^ 31 then Some i else None)"

text \<open>
  The price rows of the query: company among the keys, date between
  \<^verbatim>\<open>f"{year}-01-01"\<close> and \<^verbatim>\<open>f"{year}-12-31"\<close>.  The date literals are modelled for
  four-digit years only.
\<close>

definition year_rows :: "db \<Rightarrow> int list \<Rightarrow> int \<Rightarrow> Price list" where
  "year_rows d ids year =
     filter (\<lambda>p. price_company_id p \<in> set ids
                \<and> days_before_year year + 1 \<le> price_date p
                \<and> price_date p \<le> days_before_year (year + 1))
       (prices d)"

text \<open>
  A DataFrame indexed by date with one column per company: the rows hold the cells in
  column order.
\<close>

record frame =
  fr_index :: "int list"
  fr_columns :: "int list"
  fr_rows :: "fval list list"

text \<open>
  \<^verbatim>\<open>df.pivot(index="date", columns="company_id", values="close").sort_index()\<close>: dates and
  companies in ascending order, a missing (date, company) pair is not-a-number, a repeated
  pair is an error.
\<close>

definition pivot :: "Price list \<Rightarrow> error + frame" where
  "pivot df =
     (if \<not> distinct (map (\<lambda>p. (price_date p, price_company_id p)) df) then Inl ValueError
      else
        (let dates = sort (remdups (map price_date df));
             cols = sort (remdups (map price_company_id df))
         in Inr \<lparr>fr_index = dates, fr_columns = cols,
                 fr_rows = map (\<lambda>dt. map (\<lambda>c.
                     (case find (\<lambda>p. price_date p = dt \<and> price_company_id p = c) df of
                        None \<Rightarrow> NaN | Some p \<Rightarrow> Num (price_close p))) cols) dates\<rparr>))"

text \<open>\<^verbatim>\<open>ffill()\<close>: each column carries its last value that is not not-a-number forward.\<close>

fun ffill_from :: "fval list \<Rightarrow> fval list list \<Rightarrow> fval list list" where
  "ffill_from prev [] = []"
| "ffill_from prev (r # rs) =
     (let r' = map2 (\<lambda>p x. if x = NaN then p else x) prev r in r' # ffill_from r' rs)"

definition ffill :: "fval list list \<Rightarrow> fval list list" where
  "ffill rows = (case rows of [] \<Rightarrow> [] | r # rs \<Rightarrow> r # ffill_from r rs)"

text \<open>\<^verbatim>\<open>pct_change()\<close> of a DataFrame: row over previous row, minus one; the first row is undefined.\<close>

fun pct_rows_from :: "fval list \<Rightarrow> fval list list \<Rightarrow> fval list list" where
  "pct_rows_from prev [] = []"
| "pct_rows_from prev (r # rs) =
     map2 (\<lambda>x p. fsub (fdiv x p) (Num 1)) r prev # pct_rows_from r rs"

definition pct_change_rows :: "fval list list \<Rightarrow> fval list list" where
  "pct_change_rows rows =
     (case rows of [] \<Rightarrow> [] | r # rs \<Rightarrow> map (\<lambda>x. NaN) r # pct_rows_from r rs)"

text \<open>
  \<^verbatim>\<open>daily_returns = df.pct_change().dropna()\<close>: the dated rows without a not-a-number.
\<close>

definition daily_returns :: "frame \<Rightarrow> (int \<times> fval list) list" where
  "daily_returns fr =
     filter (\<lambda>(dt, r). NaN \<notin> set r) (zip (fr_index fr) (pct_change_rows (ffill (fr_rows fr))))"

text \<open>
  The entries of the weight mapping whose key is among the column labels:
  \<^verbatim>\<open>valid_ids = [cid for cid in weights.keys() if cid in daily_returns.columns]\<close> with
  \<^verbatim>\<open>w = [weights[cid] for cid in valid_ids]\<close>.  The column labels are integers.
\<close>

definition valid_weights :: "(pykey \<times> real) list \<Rightarrow> int list \<Rightarrow> (pykey \<times> real) list" where
  "valid_weights weights cols = filter (\<lambda>(cid, x). cid \<in> set (map IntKey cols)) weights"

text \<open>\<^verbatim>\<open>w = w / w.sum()\<close>\<close>

definition normalize :: "real list \<Rightarrow> fval list" where
  "normalize w = map (\<lambda>x. fdiv (Num x) (Num (sum_list w))) w"

text \<open>One entry of \<^verbatim>\<open>daily_returns[valid_ids].dot(w)\<close>: the weighted sum over a row.\<close>

definition row_dot :: "int list \<Rightarrow> fval list \<Rightarrow> pykey list \<Rightarrow> fval list \<Rightarrow> fval" where
  "row_dot cols r valid_ids w =
     foldl fadd (Num 0)
       (map2 (\<lambda>cid x. fmul (dict_get (zip (map IntKey cols) r) cid NaN) x) valid_ids w)"

definition compute_portfolio_returns ::
  "db \<Rightarrow> (pykey \<times> real) list \<Rightarrow> int \<Rightarrow> error + (int \<times> fval) list" where
  "compute_portfolio_returns d weights year =
     (if \<not> (1000 \<le> year \<and> year \<le> 9999) then Inl Unmodelled
      else if None \<in> set (map (sql_int \<circ> fst) weights) then Inl DataError
      else
        (let df = year_rows d (map (the \<circ> sql_int \<circ> fst) weights) year in
         if df = [] then Inr []
         else
           (case pivot df of
              Inl e \<Rightarrow> Inl e
            | Inr fr \<Rightarrow>
                (let valid = valid_weights weights (fr_columns fr);
                     w = normalize (map snd valid)
                 in Inr (map (\<lambda>(dt, r). (dt, row_dot (fr_columns fr) r (map fst valid) w))
                          (daily_returns fr))))))"

text \<open>
  The result of \<^verbatim>\<open>compute_metrics\<close>; \<open>None\<close> is Python's \<^verbatim>\<open>None\<close>.  The argument
  \<open>risk_free_rate\<close> is the attribute of the backtester.
\<close>

record metrics =
  mean_return :: "fval option"
  median_return :: "fval option"
  volatility :: "fval option"
  sharpe :: "fval option"

definition compute_metrics :: "real \<Rightarrow> fval list \<Rightarrow> metrics" where
  "compute_metrics risk_free_rate returns =
     (if returns = []
      then \<lparr>mean_return = None, median_return = None, volatility = None, sharpe = None\<rparr>
      else
        (let mean_ret = fmul (pd_mean returns) (Num 252);
             median_ret = fmul (pd_median returns) (Num 252);
             vol = fmul (pd_std returns) (Num (sqrt 252))
         in \<lparr>mean_return = Some mean_ret, median_return = Some median_ret,
              volatility = Some vol,
              sharpe = (if fgt vol 0
                        then Some (fdiv (fsub mean_ret (Num risk_free_rate)) vol)
                        else None)\<rparr>))"

text \<open>
  The statistics as the specification words them, on a list of real numbers: the mean,
  the median (the middle value, or the average of the two middle values), and the sample
  standard deviation.
\<close>

definition spec_mean :: "real list \<Rightarrow> real" where
  "spec_mean xs = sum_list xs / real (length xs)"

definition spec_median :: "real list \<Rightarrow> real" where
  "spec_median xs =
     (let s = sort xs; n = length xs in
      if odd n then s ! (n div 2) else (s ! (n div 2 - 1) + s ! (n div 2)) / 2)"

definition spec_stdev :: "real list \<Rightarrow> real" where
  "spec_stdev xs =
     sqrt (sum_list (map (\<lambda>x. (x - spec_mean xs)\<^sup>2) xs) / real (length xs - 1))"

section \<open>Example data\<close>

definition db0 :: db where
  "db0 = \<lparr>companies = [1, 2, 3],
          metrics = [\<lparr>metric_id = 10, metric_name = ''ROE''\<rparr>,
                     \<lparr>metric_id = 11, metric_name = ''market_cap''\<rparr>],
          financials = [\<lparr>fin_company_id = 1, fin_metric_id = 10, period_label = ''FY2020'', fin_value = 20\<rparr>,
                        \<lparr>fin_company_id = 2, fin_metric_id = 10, period_label = ''FY2020'', fin_value = 10\<rparr>,
                        \<lparr>fin_company_id = 2, fin_metric_id = 11, period_label = ''FY2020'', fin_value = 500\<rparr>],
          prices = [],
          yearly_portfolios = [\<lparr>yp_rule_id = 7, yp_year = 2021, yp_weights = [(''3'', 1)]\<rparr>]\<rparr>"

definition roe_clause :: "string \<Rightarrow> real \<Rightarrow> FilterClause" where
  "roe_clause sg t = \<lparr>f_name = ''ROE'', f_sign = sg, f_threshold = t\<rparr>"

text \<open>A database without companies, and two orders in which a server may return ids.\<close>

definition db_no_companies :: db where
  "db_no_companies = \<lparr>companies = [], metrics = [], financials = [], prices = [],
          yearly_portfolios = [\<lparr>yp_rule_id = 7, yp_year = 2021, yp_weights = [(''3'', 1)]\<rparr>]\<rparr>"

definition ascending :: "int \<Rightarrow> int" where
  "ascending cid = cid"

definition descending :: "int \<Rightarrow> int" where
  "descending cid = - cid"

text \<open>
  Prices at the end of 2020 (ordinal 737790 is 2020-12-31): company 1 has three closes,
  company 2 has two, company 3 has none.
\<close>

definition dbp :: db where
  "dbp = \<lparr>companies = [1, 2, 3],
          metrics = [\<lparr>metric_id = 11, metric_name = ''market_cap''\<rparr>],
          financials = [\<lparr>fin_company_id = 1, fin_metric_id = 11, period_label = ''FY2020'', fin_value = 300\<rparr>,
                        \<lparr>fin_company_id = 2, fin_metric_id = 11, period_label = ''FY2020'', fin_value = 100\<rparr>],
          prices = [\<lparr>price_company_id = 1, price_date = 737700, price_close = 100\<rparr>,
                    \<lparr>price_company_id = 1, price_date = 737701, price_close = 110\<rparr>,
                    \<lparr>price_company_id = 1, price_date = 737702, price_close = 130\<rparr>,
                    \<lparr>price_company_id = 2, price_date = 737700, price_close = 100\<rparr>,
                    \<lparr>price_company_id = 2, price_date = 737702, price_close = 90\<rparr>],
          yearly_portfolios = []\<rparr>"

text \<open>Market caps of 0, and a close of 0 for company 1.\<close>

definition dbz :: db where
  "dbz = \<lparr>companies = [1, 2],
          metrics = [\<lparr>metric_id = 11, metric_name = ''market_cap''\<rparr>],
          financials = [\<lparr>fin_company_id = 1, fin_metric_id = 11, period_label = ''FY2020'', fin_value = 0\<rparr>,
                        \<lparr>fin_company_id = 2, fin_metric_id = 11, period_label = ''FY2020'', fin_value = 0\<rparr>],
          prices = [\<lparr>price_company_id = 1, price_date = 737700, price_close = 0\<rparr>,
                    \<lparr>price_company_id = 1, price_date = 737701, price_close = 5\<rparr>,
                    \<lparr>price_company_id = 1, price_date = 737702, price_close = 6\<rparr>,
                    \<lparr>price_company_id = 2, price_date = 737700, price_close = 100\<rparr>,
                    \<lparr>price_company_id = 2, price_date = 737701, price_close = 110\<rparr>,
                    \<lparr>price_company_id = 2, price_date = 737702, price_close = 121\<rparr>],
          yearly_portfolios = []\<rparr>"

text \<open>
  Three trading days of 2021 (ordinal 737791 is 2021-01-01) for company 1, none for
  company 2.
\<close>

definition dbr :: db where
  "dbr = \<lparr>companies = [1, 2], metrics = [], financials = [],
          prices = [\<lparr>price_company_id = 1, price_date = 737791, price_close = 100\<rparr>,
                    \<lparr>price_company_id = 1, price_date = 737792, price_close = 110\<rparr>,
                    \<lparr>price_company_id = 1, price_date = 737793, price_close = 121\<rparr>],
          yearly_portfolios = []\<rparr>"

section \<open>Strings, dicts and sorting\<close>

lemma digit_char_inj: "n < 10 \<Longrightarrow> m < 10 \<Longrightarrow> digit_char n = digit_char m \<Longrightarrow> n = m"
proof -
  assume n: "n < 10" and m: "m < 10" and e: "digit_char n = digit_char m"
  have d: "distinct ''0123456789''" by simp
  have l: "length ''0123456789'' = 10" by simp
  from e have "''0123456789'' ! n = ''0123456789'' ! m" by (simp only: digit_char_def)
  with d n m l show "n = m" by (simp only: nth_eq_iff_index_eq)
qed

lemma digit_char_in: "n < 10 \<Longrightarrow> digit_char n \<in> set ''0123456789''"
  unfolding digit_char_def by (rule nth_mem) simp

lemma digits_ne: "digits n \<noteq> []"
  by (subst digits.simps) simp

lemma set_digits: "set (digits n) \<subseteq> set ''0123456789''"
proof (induction n rule: digits.induct)
  case (1 n)
  show ?case
  proof (cases "n < 10")
    case True
    then show ?thesis using digit_char_in[of n] by (subst digits.simps) simp
  next
    case False
    have "n mod 10 < 10" by simp
    then have "digit_char (n mod 10) \<in> set ''0123456789''" by (rule digit_char_in)
    with False 1 show ?thesis by (subst digits.simps) simp
  qed
qed

lemma digits_inj: "digits n = digits m \<Longrightarrow> n = m"
proof (induction n arbitrary: m rule: digits.induct)
  case (1 n)
  show ?case
  proof (cases "n < 10")
    case True
    show ?thesis
    proof (cases "m < 10")
      case m: True
      from 1(2) True m have "digit_char n = digit_char m"
        by (simp add: digits.simps[of n] digits.simps[of m])
      with True m show ?thesis by (rule digit_char_inj)
    next
      case m: False
      from 1(2) True m have "[digit_char n] = digits (m div 10) @ [digit_char (m mod 10)]"
        by (simp add: digits.simps[of n] digits.simps[of m])
      then have "digits (m div 10) = []" by simp
      with digits_ne show ?thesis by blast
    qed
  next
    case False
    show ?thesis
    proof (cases "m < 10")
      case m: True
      from 1(2) False m have "digits (n div 10) @ [digit_char (n mod 10)] = [digit_char m]"
        by (simp add: digits.simps[of n] digits.simps[of m])
      then have "digits (n div 10) = []" by simp
      with digits_ne show ?thesis by blast
    next
      case m: False
      from 1(2) False m
      have e: "digits (n div 10) @ [digit_char (n mod 10)] = digits (m div 10) @ [digit_char (m mod 10)]"
        by (simp add: digits.simps[of n] digits.simps[of m])
      then have "digits (n div 10) = digits (m div 10)" by simp
      with 1(1) False have q: "n div 10 = m div 10" by blast
      from e have "digit_char (n mod 10) = digit_char (m mod 10)" by simp
      then have r: "n mod 10 = m mod 10" by (intro digit_char_inj) simp_all
      from q r show ?thesis by (metis div_mult_mod_eq)
    qed
  qed
qed

lemma str_int_inj: "str_int i = str_int j \<Longrightarrow> i = j"
proof -
  assume e: "str_int i = str_int j"
  have nd: "\<And>n. CHR ''-'' \<notin> set (digits n)" using set_digits by fastforce
  have hd: "\<And>n. hd (digits n) \<noteq> CHR ''-''"
    using nd digits_ne by (metis hd_in_set)
  show "i = j"
  proof (cases "i < 0")
    case True
    show ?thesis
    proof (cases "j < 0")
      case j: True
      from e True j have "digits (nat (- i)) = digits (nat (- j))" by (simp add: str_int_def)
      then have "nat (- i) = nat (- j)" by (rule digits_inj)
      with True j show ?thesis by simp
    next
      case j: False
      from e True j have "CHR ''-'' # digits (nat (- i)) = digits (nat j)" by (simp add: str_int_def)
      then have "hd (digits (nat j)) = CHR ''-''" by (metis list.sel(1))
      with hd show ?thesis by blast
    qed
  next
    case False
    show ?thesis
    proof (cases "j < 0")
      case j: True
      from e False j have "digits (nat i) = CHR ''-'' # digits (nat (- j))" by (simp add: str_int_def)
      then have "hd (digits (nat i)) = CHR ''-''" by (metis list.sel(1))
      with hd show ?thesis by blast
    next
      case j: False
      from e False j have "digits (nat i) = digits (nat j)" by (simp add: str_int_def)
      then have "nat i = nat j" by (rule digits_inj)
      with False j show ?thesis by simp
    qed
  qed
qed

lemma inj_str_int: "inj str_int"
  by (rule injI) (rule str_int_inj)

lemma update_fresh: "k \<notin> fst ` set al \<Longrightarrow> AList.update k v al = al @ [(k, v)]"
  by (induction al) auto

lemma foldl_update_distinct:
  "distinct (map fst (acc @ kvs)) \<Longrightarrow>
   foldl (\<lambda>d (k, v). AList.update k v d) acc kvs = acc @ kvs"
proof (induction kvs arbitrary: acc)
  case Nil
  then show ?case by simp
next
  case (Cons kv kvs)
  obtain k v where kv: "kv = (k, v)" by (cases kv)
  from Cons.prems kv have fresh: "k \<notin> fst ` set acc" by auto
  from Cons.prems kv have "distinct (map fst ((acc @ [(k, v)]) @ kvs))" by auto
  then have "foldl (\<lambda>d (k, v). AList.update k v d) (acc @ [(k, v)]) kvs = (acc @ [(k, v)]) @ kvs"
    by (rule Cons.IH)
  with fresh kv show ?case by (simp add: update_fresh)
qed

lemma dict_of_distinct: "distinct (map fst kvs) \<Longrightarrow> dict_of kvs = kvs"
  unfolding dict_of_def using foldl_update_distinct[of "[]" kvs] by simp

lemma map_of_foldl_update:
  "map_of (foldl (\<lambda>d (k, v). AList.update k v d) acc kvs) = map_of (rev kvs @ acc)"
proof (induction kvs arbitrary: acc)
  case Nil
  then show ?case by simp
next
  case (Cons kv kvs)
  obtain k v where kv: "kv = (k, v)" by (cases kv)
  show ?case
    by (simp add: Cons.IH kv AList.update_conv' map_add_def fun_eq_iff)
qed

lemma map_of_dict_of: "map_of (dict_of kvs) = map_of (rev kvs)"
  unfolding dict_of_def by (simp add: map_of_foldl_update)


lemma insort_reverse_insort_key: "insort_reverse key x ys = insort_key (\<lambda>y. - key y) x ys"
  by (induction ys) auto

lemma sort_reverse_sort_key: "sort_reverse key xs = sort_key (\<lambda>y. - key y) xs"
proof -
  have "insort_reverse key = insort_key (\<lambda>y. - key y)"
    by (intro ext) (rule insort_reverse_insort_key)
  then show ?thesis by (simp add: sort_reverse_def sort_key_def)
qed

lemma mset_sort_reverse: "mset (sort_reverse key xs) = mset xs"
  by (simp add: sort_reverse_sort_key)

lemma sorted_sort_reverse: "sorted_wrt (\<lambda>a b. key a \<ge> key b) (sort_reverse key xs)"
proof -
  have "sorted (map (\<lambda>y. - key y) (sort_key (\<lambda>y. - key y) xs))" by (rule sorted_sort_key)
  then show ?thesis by (simp add: sort_reverse_sort_key sorted_wrt_map)
qed

lemma stable_sort_reverse:
  "filter (\<lambda>c. key c = k) (sort_reverse key xs) = filter (\<lambda>c. key c = k) xs"
proof -
  have "filter (\<lambda>c. - key c = - k) (sort_key (\<lambda>y. - key y) xs) = filter (\<lambda>c. - key c = - k) xs"
    by (rule sort_key_stable)
  then show ?thesis by (simp add: sort_reverse_sort_key)
qed

lemma distinct_rank_top: "distinct eligible \<Longrightarrow> distinct (rank_top d eligible year)"
  by (simp add: rank_top_def Let_def sort_reverse_sort_key)

lemma run_query_distinct: "run_query row_order d q = Inr ids \<Longrightarrow> distinct ids"
  by (auto simp: run_query_def split: list.splits)

lemma distinct_top_company_ids:
  "top_company_ids row_order d fs year = Inr ids \<Longrightarrow> distinct ids"
  by (auto simp: top_company_ids_def split: sum.splits
           dest!: run_query_distinct intro: distinct_rank_top)

lemma placeholder_distinct:
  "distinct top_ids \<Longrightarrow>
   portfolio_weights_placeholder top_ids = map (\<lambda>cid. (str_int cid, 0)) top_ids"
proof -
  assume "distinct top_ids"
  then have "distinct (map fst (map (\<lambda>cid. (str_int cid, 0::real)) top_ids))"
    by (simp add: comp_def distinct_map inj_str_int[THEN inj_on_subset])
  then show ?thesis unfolding portfolio_weights_placeholder_def by (rule dict_of_distinct)
qed

lemma filter_map_update:
  assumes "\<And>p. P (g p) = P p"
  shows "filter P (map (\<lambda>p. if P p then g p else p) ys) = map g (filter P ys)"
  using assms by (induction ys) auto

lemma save_portfolio_stored:
  assumes "save_portfolio rid year w d = Inr d'"
  shows "\<exists>p. filter (\<lambda>p. yp_rule_id p = rid \<and> yp_year p = year) (yearly_portfolios d') = [p]
             \<and> yp_weights p = w"
proof (cases "filter (\<lambda>p. yp_rule_id p = rid \<and> yp_year p = year) (yearly_portfolios d)")
  case Nil
  with assms show ?thesis by (auto simp: save_portfolio_def)
next
  case (Cons e es)
  show ?thesis
  proof (cases es)
    case Nil
    have "filter (\<lambda>p. yp_rule_id p = rid \<and> yp_year p = year)
            (map (\<lambda>p. if yp_rule_id p = rid \<and> yp_year p = year then p\<lparr>yp_weights := w\<rparr> else p)
               (yearly_portfolios d))
          = map (\<lambda>p. p\<lparr>yp_weights := w\<rparr>)
              (filter (\<lambda>p. yp_rule_id p = rid \<and> yp_year p = year) (yearly_portfolios d))"
      by (rule filter_map_update) simp
    with assms Cons Nil show ?thesis by (auto simp: save_portfolio_def)
  next
    case (Cons e' es')
    with assms \<open>filter _ _ = e # es\<close> show ?thesis by (simp add: save_portfolio_def)
  qed
qed

lemma build_query_append:
  "build_query year q (fs1 @ fs2) = build_query year (build_query year q fs1) fs2"
  by (induction fs1 arbitrary: q) (auto split: option.splits)

lemma build_query_all:
  assumes "\<forall>j \<in> set q. P j" and "\<And>f cond. P (join_condition f year, cond)"
  shows "\<forall>j \<in> set (build_query year q fs). P j"
  using assms(1)
proof (induction fs arbitrary: q)
  case Nil
  then show ?case by simp
next
  case (Cons f fs)
  show ?case
  proof (cases "filter_condition f")
    case None
    with Cons show ?thesis by simp
  next
    case (Some cond)
    from Cons.prems assms(2) have "\<forall>j \<in> set (q @ [(join_condition f year, cond)]). P j" by simp
    then have "\<forall>j \<in> set (build_query year (q @ [(join_condition f year, cond)]) fs). P j"
      by (rule Cons.IH)
    with Some show ?thesis by simp
  qed
qed

lemma filter_filter_imp: "(\<And>x. P x \<Longrightarrow> Q x) \<Longrightarrow> filter P (filter Q xs) = filter P xs"
  by (induction xs) auto

lemma run_query_facts: "run_query row_order (d\<lparr>financials := facts\<rparr>) q = run_query row_order d q"
  by (simp add: run_query_def split: list.splits)

lemma run_query_restrict:
  "run_query row_order (lagged_facts_only d year) q = run_query row_order d q"
  by (simp add: lagged_facts_only_def run_query_facts)

lemma market_cap_restrict:
  "get_market_cap_for_sorting (lagged_facts_only d year) ids year
   = get_market_cap_for_sorting d ids year"
proof -
  have r: "\<And>m. filter (\<lambda>f. fin_company_id f \<in> set ids \<and> fin_metric_id f = metric_id m
                       \<and> endswith (period_label f) (str_int (year - 1)))
          (filter (\<lambda>r. endswith (period_label r) (str_int (year - 1))) (financials d))
        = filter (\<lambda>f. fin_company_id f \<in> set ids \<and> fin_metric_id f = metric_id m
                       \<and> endswith (period_label f) (str_int (year - 1))) (financials d)"
    by (rule filter_filter_imp) simp
  show ?thesis
    by (simp add: get_market_cap_for_sorting_def first_metric_def lagged_facts_only_def r
          del: filter_filter split: list.splits)
qed

lemma rank_top_restrict:
  "rank_top (lagged_facts_only d year) eligible year = rank_top d eligible year"
  by (simp add: rank_top_def market_cap_restrict)

lemma top_company_ids_restrict:
  "top_company_ids row_order (lagged_facts_only d year) fs year = top_company_ids row_order d fs year"
  by (simp add: top_company_ids_def run_query_restrict rank_top_restrict split: sum.splits)

lemma endswith_same_length:
  "endswith (p @ s) t \<Longrightarrow> length s = length t \<Longrightarrow> s = t"
  by (simp add: endswith_def)



section \<open>Rule screening, ranking and the placeholder portfolio\<close>

text \<open>
  Claim C2.  The ON condition that \<^verbatim>\<open>generate_portfolio\<close> builds for a filter clause holds
  only of rows of \<^verbatim>\<open>financials\<close> whose period label ends with \<^verbatim>\<open>str(year - 1)\<close>.  Executing
  the statement reads no row of \<^verbatim>\<open>financials\<close> at all: its outcome is the same whatever
  the table holds, and the screening and the ranking give the same result on the database
  that holds only the rows labelled with \<open>year - 1\<close>.  When the label is a prefix followed
  by a year written with as many digits as \<open>year - 1\<close>, that year is \<open>year - 1\<close>, hence not
  \<open>year\<close> or a later one.
\<close>

theorem filter_reads_lagged_rows_only:
  "(\<forall>(on_cond, value_cond) \<in> set (build_query year [] fs). \<forall>cid r m.
       on_cond cid r m \<longrightarrow> endswith (period_label r) (str_int (year - 1)))
   \<and> run_query row_order (d\<lparr>financials := facts\<rparr>) q = run_query row_order d q
   \<and> top_company_ids row_order (lagged_facts_only d year) fs year
       = top_company_ids row_order d fs year
   \<and> (\<forall>(on_cond, value_cond) \<in> set (build_query year [] fs). \<forall>cid r m p y.
         on_cond cid r m \<and> period_label r = p @ str_int y
           \<and> length (str_int y) = length (str_int (year - 1))
         \<longrightarrow> y = year - 1)"
proof -
  have a: "\<forall>j \<in> set (build_query year [] fs). \<forall>cid r m.
       fst j cid r m \<longrightarrow> endswith (period_label r) (str_int (year - 1))"
    by (rule build_query_all) (simp_all add: join_condition_def)
  have c: "\<forall>j \<in> set (build_query year [] fs). \<forall>cid r m p y.
         fst j cid r m \<and> period_label r = p @ str_int y
           \<and> length (str_int y) = length (str_int (year - 1))
         \<longrightarrow> y = year - 1"
  proof (intro ballI allI impI)
    fix j cid r m p y
    assume j: "j \<in> set (build_query year [] fs)"
      and l: "fst j cid r m \<and> period_label r = p @ str_int y
           \<and> length (str_int y) = length (str_int (year - 1))"
    with a have "endswith (period_label r) (str_int (year - 1))" by blast
    with l have "str_int y = str_int (year - 1)" by (simp add: endswith_same_length)
    then show "y = year - 1" by (rule str_int_inj)
  qed
  from a c show ?thesis
    by (simp add: run_query_facts top_company_ids_restrict case_prod_beta)
qed

theorem filter_reads_lagged_rows_only_witness:
  "(\<exists>on_cond value_cond.
       build_query 2021 [] [roe_clause ''>'' 15] = [(on_cond, value_cond)]
     \<and> on_cond 1 \<lparr>fin_company_id = 1, fin_metric_id = 10, period_label = ''FY2020'', fin_value = 20\<rparr>
          \<lparr>metric_id = 10, metric_name = ''ROE''\<rparr>)
   \<and> endswith ''FY2020'' (str_int (2021 - 1))
   \<and> \<not> endswith ''FY2021'' (str_int (2021 - 1))
   \<and> top_company_ids ascending (lagged_facts_only db0 2021) [roe_clause ''=='' 15] 2021 = Inr [2, 1, 3]"
proof -
  let ?row = "\<lparr>fin_company_id = 1, fin_metric_id = 10, period_label = ''FY2020'', fin_value = 20\<rparr>"
  let ?m = "\<lparr>metric_id = 10, metric_name = ''ROE''\<rparr>"
  have b: "build_query 2021 [] [roe_clause ''>'' 15]
      = [(join_condition (roe_clause ''>'' 15) 2021, \<lambda>v. v > 15)]"
    by (simp add: filter_condition_def roe_clause_def)
  have s: "str_int 2020 = ''2020''" by code_simp
  have j: "join_condition (roe_clause ''>'' 15) 2021 1 ?row ?m"
    by (simp add: join_condition_def roe_clause_def endswith_def s)
  have t: "top_company_ids ascending db0 [roe_clause ''=='' 15] 2021 = Inr [2, 1, 3]" by code_simp
  note th = filter_reads_lagged_rows_only[where year = 2021 and fs = "[roe_clause ''>'' 15]"
      and row_order = ascending and d = db0 and facts = "[]" and q = "[]"]
  note th' = filter_reads_lagged_rows_only[where year = 2021 and fs = "[roe_clause ''=='' 15]"
      and row_order = ascending and d = db0 and facts = "[]" and q = "[]"]
  from th b j have e: "endswith ''FY2020'' (str_int (2021 - 1))" by force
  have n: "\<not> endswith ''FY2021'' (str_int (2021 - 1))" by (simp add: endswith_def s)
  from th' t have "top_company_ids ascending (lagged_facts_only db0 2021) [roe_clause ''=='' 15] 2021
      = Inr [2, 1, 3]" by simp
  with b j e n show ?thesis by blast
qed

text \<open>
  Claim C5.  When the rule has no filter clauses, or the ranked and truncated list of
  eligible companies is empty, \<^verbatim>\<open>generate_portfolio\<close> returns the empty list and the
  database, the portfolio store included, is the one it was called on.
\<close>

theorem generate_portfolio_empty_no_write:
  "rule_filters rule = [] \<or> top_company_ids row_order d (rule_filters rule) year = Inr [] \<Longrightarrow>
   generate_portfolio row_order rule year d = Inr ([], d)"
  by (auto simp: generate_portfolio_def)

theorem generate_portfolio_empty_no_write_witness:
  "generate_portfolio ascending \<lparr>rule_id = 7, rule_filters = []\<rparr> 2021 db0 = Inr ([], db0)
   \<and> top_company_ids ascending db_no_companies [roe_clause ''=='' 15] 2021 = Inr []
   \<and> generate_portfolio ascending \<lparr>rule_id = 7, rule_filters = [roe_clause ''=='' 15]\<rparr> 2021
        db_no_companies = Inr ([], db_no_companies)"
proof -
  have e: "top_company_ids ascending db_no_companies [roe_clause ''=='' 15] 2021 = Inr []"
    by code_simp
  have "generate_portfolio ascending \<lparr>rule_id = 7, rule_filters = []\<rparr> 2021 db0 = Inr ([], db0)"
    using generate_portfolio_empty_no_write[where rule = "\<lparr>rule_id = 7, rule_filters = []\<rparr>"
        and row_order = ascending and d = db0 and year = 2021]
    by simp
  moreover have "generate_portfolio ascending \<lparr>rule_id = 7, rule_filters = [roe_clause ''=='' 15]\<rparr> 2021
        db_no_companies = Inr ([], db_no_companies)"
    using generate_portfolio_empty_no_write[where rule = "\<lparr>rule_id = 7, rule_filters = [roe_clause ''=='' 15]\<rparr>"
        and row_order = ascending and d = db_no_companies and year = 2021] e
    by simp
  ultimately show ?thesis using e by simp
qed

text \<open>
  Claim C8.  A clause whose sign is none of \<^verbatim>\<open>>\<close>, \<^verbatim>\<open><\<close>, \<^verbatim>\<open>>=\<close>, \<^verbatim>\<open><=\<close> adds nothing to the
  query: the query built, the ranked companies and the result of \<^verbatim>\<open>generate_portfolio\<close>
  are those of the rule without the clause (for \<^verbatim>\<open>generate_portfolio\<close>, when another
  clause remains, since a rule with no clause at all returns early), and a rule whose only
  clause has such a sign is not rejected: its query selects every company.
\<close>

theorem unrecognized_sign_clause_skipped:
  assumes "f_sign f \<notin> {''>'', ''<'', ''>='', ''<=''}"
  shows "build_query year q (fs1 @ f # fs2) = build_query year q (fs1 @ fs2)
       \<and> top_company_ids row_order d (fs1 @ f # fs2) year = top_company_ids row_order d (fs1 @ fs2) year
       \<and> run_query row_order d (build_query year [] [f]) = Inr (sort_key row_order (remdups (companies d)))
       \<and> (fs1 @ fs2 \<noteq> [] \<longrightarrow>
            generate_portfolio row_order (rule\<lparr>rule_filters := fs1 @ f # fs2\<rparr>) year d
            = generate_portfolio row_order (rule\<lparr>rule_filters := fs1 @ fs2\<rparr>) year d)"
proof -
  from assms have n: "filter_condition f = None" by (simp add: filter_condition_def)
  then have b: "\<And>q. build_query year q (fs1 @ f # fs2) = build_query year q (fs1 @ fs2)"
    by (simp add: build_query_append)
  then have t: "top_company_ids row_order d (fs1 @ f # fs2) year = top_company_ids row_order d (fs1 @ fs2) year"
    by (simp add: top_company_ids_def)
  from n have r: "run_query row_order d (build_query year [] [f])
      = Inr (sort_key row_order (remdups (companies d)))"
    by (simp add: run_query_def)
  from t have "fs1 @ fs2 \<noteq> [] \<longrightarrow>
            generate_portfolio row_order (rule\<lparr>rule_filters := fs1 @ f # fs2\<rparr>) year d
            = generate_portfolio row_order (rule\<lparr>rule_filters := fs1 @ fs2\<rparr>) year d"
    by (simp add: generate_portfolio_def split: sum.splits)
  with b t r show ?thesis by blast
qed

theorem unrecognized_sign_clause_skipped_witness:
  "f_sign (roe_clause ''=='' 15) \<notin> {''>'', ''<'', ''>='', ''<=''}
   \<and> top_company_ids ascending db0 [roe_clause ''=='' 15, roe_clause ''!='' 3] 2021 = Inr [2, 1, 3]
   \<and> top_company_ids ascending db0 [roe_clause ''=='' 15] 2021 = Inr [2, 1, 3]
   \<and> run_query descending db0 (build_query 2021 [] [roe_clause ''=='' 15]) = Inr [3, 2, 1]"
proof -
  have h: "f_sign (roe_clause ''=='' 15) \<notin> {''>'', ''<'', ''>='', ''<=''}"
    by (simp add: roe_clause_def)
  have a: "top_company_ids ascending db0 [roe_clause ''!='' 3] 2021 = Inr [2, 1, 3]" by code_simp
  have b: "top_company_ids ascending db0 [] 2021 = Inr [2, 1, 3]" by code_simp
  have c: "sort_key descending (remdups (companies db0)) = [3, 2, 1]" by code_simp
  note t1 = unrecognized_sign_clause_skipped[OF h, of 2021 "[]" "[]" "[roe_clause ''!='' 3]" ascending db0,
      THEN conjunct2, THEN conjunct1]
  note t2 = unrecognized_sign_clause_skipped[OF h, of 2021 "[]" "[]" "[]" ascending db0, THEN conjunct2, THEN conjunct1]
  note t3 = unrecognized_sign_clause_skipped[OF h, of 2021 "[]" "[]" "[]" descending db0,
      THEN conjunct2, THEN conjunct2, THEN conjunct1]
  from t1 a
  have "top_company_ids ascending db0 [roe_clause ''=='' 15, roe_clause ''!='' 3] 2021 = Inr [2, 1, 3]"
    by simp
  moreover from t2 b
  have "top_company_ids ascending db0 [roe_clause ''=='' 15] 2021 = Inr [2, 1, 3]" by simp
  moreover from t3 c
  have "run_query descending db0 (build_query 2021 [] [roe_clause ''=='' 15]) = Inr [3, 2, 1]"
    by (simp only:)
  ultimately show ?thesis using h by blast
qed

text \<open>
  Claim C9.  Whatever the list of eligible companies, the ranking is the first 20 entries
  of a list that is a permutation of the eligible list, is in descending order of the
  prior-year market-cap key with a missing key counted as 0, and keeps companies of equal
  key in their order in the eligible list; \<^verbatim>\<open>generate_portfolio\<close> ranks the rows its query
  returns in this way.
\<close>

theorem ranking_stable_descending_top20:
  "\<exists>market_caps ranked.
      market_caps = get_market_cap_for_sorting d eligible year
    \<and> ranked = sort_reverse (\<lambda>c. dict_get market_caps c 0) eligible
    \<and> rank_top d eligible year = take 20 ranked
    \<and> (run_query row_order d (build_query year [] fs) = Inr eligible
         \<longrightarrow> top_company_ids row_order d fs year = Inr (take 20 ranked))
    \<and> mset ranked = mset eligible
    \<and> sorted_wrt (\<lambda>a b. dict_get market_caps a 0 \<ge> dict_get market_caps b 0) ranked
    \<and> (\<forall>k. filter (\<lambda>c. dict_get market_caps c 0 = k) ranked
            = filter (\<lambda>c. dict_get market_caps c 0 = k) eligible)
    \<and> (\<forall>c. map_of market_caps c = None \<longrightarrow> dict_get market_caps c 0 = 0)"
proof -
  define market_caps where "market_caps = get_market_cap_for_sorting d eligible year"
  define ranked where "ranked = sort_reverse (\<lambda>cid. dict_get market_caps cid 0) eligible"
  have r: "rank_top d eligible year = take 20 ranked"
    by (simp add: rank_top_def Let_def ranked_def market_caps_def)
  then have "run_query row_order d (build_query year [] fs) = Inr eligible
         \<longrightarrow> top_company_ids row_order d fs year = Inr (take 20 ranked)"
    by (simp add: top_company_ids_def)
  moreover have "mset ranked = mset eligible"
    unfolding ranked_def by (rule mset_sort_reverse)
  moreover have "sorted_wrt (\<lambda>a b. dict_get market_caps a 0 \<ge> dict_get market_caps b 0) ranked"
    unfolding ranked_def by (rule sorted_sort_reverse)
  moreover have "\<forall>k. filter (\<lambda>c. dict_get market_caps c 0 = k) ranked
            = filter (\<lambda>c. dict_get market_caps c 0 = k) eligible"
    unfolding ranked_def by (simp add: stable_sort_reverse)
  moreover have "\<forall>c. map_of market_caps c = None \<longrightarrow> dict_get market_caps c 0 = 0"
    by (simp add: dict_get_def)
  ultimately show ?thesis using r market_caps_def ranked_def by blast
qed

theorem ranking_stable_descending_top20_witness:
  "run_query descending db0 (build_query 2021 [] [roe_clause ''=='' 15]) = Inr [3, 2, 1]
   \<and> get_market_cap_for_sorting db0 [3, 2, 1] 2021 = [(2, 500)]
   \<and> top_company_ids descending db0 [roe_clause ''=='' 15] 2021 = Inr [2, 3, 1]
   \<and> filter (\<lambda>c. dict_get [(2, 500)] c 0 = (0::real)) [2, 3, 1::int] = [3, 1]"
proof -
  have e: "run_query descending db0 (build_query 2021 [] [roe_clause ''=='' 15]) = Inr [3, 2, 1]"
    by code_simp
  have m: "get_market_cap_for_sorting db0 [3, 2, 1] 2021 = [(2, 500)]" by code_simp
  have s: "sort_reverse (\<lambda>c. dict_get [(2, 500)] c 0) [3, 2, 1::int] = [2, 3, 1]" by code_simp
  from ranking_stable_descending_top20[where d = db0 and eligible = "[3, 2, 1]" and year = 2021
      and row_order = descending and fs = "[roe_clause ''=='' 15]"] e m s
  have t: "top_company_ids descending db0 [roe_clause ''=='' 15] 2021 = Inr [2, 3, 1]"
    and f: "filter (\<lambda>c. dict_get [(2, 500)] c 0 = (0::real)) [2, 3, 1::int]
              = filter (\<lambda>c. dict_get [(2, 500)] c 0 = (0::real)) [3, 2, 1]"
    by simp_all
  have "filter (\<lambda>c. dict_get [(2, 500)] c 0 = (0::real)) [3, 2, 1::int] = [3, 1]"
    by (simp add: dict_get_def)
  with e m t f show ?thesis by simp
qed

text \<open>
  Claim C10.  After \<^verbatim>\<open>generate_portfolio\<close> has returned a non-empty top list, the store
  holds exactly one portfolio for the rule and year, created or updated; its weights map
  the string form of each selected company id to 0, and they sum to 0, not to 1.
\<close>

theorem placeholder_weights_all_zero:
  assumes "generate_portfolio row_order rule year d = Inr (top_ids, d')" and "top_ids \<noteq> []"
  shows "\<exists>p. filter (\<lambda>p. yp_rule_id p = rule_id rule \<and> yp_year p = year) (yearly_portfolios d') = [p]
           \<and> yp_weights p = map (\<lambda>cid. (str_int cid, 0)) top_ids
           \<and> sum_list (map snd (yp_weights p)) = 0
           \<and> sum_list (map snd (yp_weights p)) \<noteq> 1"
proof -
  from assms have ne: "rule_filters rule \<noteq> []"
    by (auto simp: generate_portfolio_def)
  from assms ne have top: "top_company_ids row_order d (rule_filters rule) year = Inr top_ids"
    by (auto simp: generate_portfolio_def split: if_splits sum.splits)
  from assms ne top have
    s: "save_portfolio (rule_id rule) year (portfolio_weights_placeholder top_ids) d = Inr d'"
    by (auto simp: generate_portfolio_def split: if_splits sum.splits)
  from top have "distinct top_ids" by (rule distinct_top_company_ids)
  then have w: "portfolio_weights_placeholder top_ids = map (\<lambda>cid. (str_int cid, 0)) top_ids"
    by (rule placeholder_distinct)
  from save_portfolio_stored[OF s] obtain p where
    p: "filter (\<lambda>p. yp_rule_id p = rule_id rule \<and> yp_year p = year) (yearly_portfolios d') = [p]"
       "yp_weights p = portfolio_weights_placeholder top_ids"
    by blast
  from p(2) w have "sum_list (map snd (yp_weights p)) = 0" by (simp add: comp_def)
  with p w show ?thesis by simp
qed

theorem placeholder_weights_all_zero_witness:
  "generate_portfolio ascending \<lparr>rule_id = 7, rule_filters = [roe_clause ''=='' 15]\<rparr> 2021 db0
     = Inr ([2, 1, 3], db0\<lparr>yearly_portfolios :=
          [\<lparr>yp_rule_id = 7, yp_year = 2021, yp_weights = [(''2'', 0), (''1'', 0), (''3'', 0)]\<rparr>]\<rparr>)
   \<and> (\<exists>p. filter (\<lambda>p. yp_rule_id p = 7 \<and> yp_year p = 2021)
             [\<lparr>yp_rule_id = 7, yp_year = 2021, yp_weights = [(''2'', 0), (''1'', 0), (''3'', 0)]\<rparr>] = [p]
         \<and> yp_weights p = map (\<lambda>cid. (str_int cid, 0)) [2, 1, 3]
         \<and> sum_list (map snd (yp_weights p)) = 0)"
proof -
  have g: "generate_portfolio ascending \<lparr>rule_id = 7, rule_filters = [roe_clause ''=='' 15]\<rparr> 2021 db0
     = Inr ([2, 1, 3], db0\<lparr>yearly_portfolios :=
          [\<lparr>yp_rule_id = 7, yp_year = 2021, yp_weights = [(''2'', 0), (''1'', 0), (''3'', 0)]\<rparr>]\<rparr>)"
    by code_simp
  have n: "[2, 1, 3::int] \<noteq> []" by simp
  from placeholder_weights_all_zero[OF g n] show ?thesis using g by simp
qed

section \<open>Series and float lemmas\<close>

lemma foldl_update_distinct_keys:
  "distinct (map fst acc) \<Longrightarrow> distinct (map fst (foldl (\<lambda>d (k, v). AList.update k v d) acc kvs))"
  by (induction kvs arbitrary: acc) (auto simp: AList.distinct_update)

lemma distinct_dict_of: "distinct (map fst (dict_of kvs))"
  unfolding dict_of_def by (rule foldl_update_distinct_keys) simp

lemma map_of_dict_of_fun:
  "map_of (dict_of (map (\<lambda>k. (k, f k)) ids)) k = (if k \<in> set ids then Some (f k) else None)"
proof -
  have "rev (map (\<lambda>k. (k, f k)) ids) = map (\<lambda>k. (k, f k)) (rev ids)" by (simp add: rev_map)
  then show ?thesis
    by (simp add: map_of_dict_of map_of_map_restrict restrict_map_def)
qed

lemma dict_of_fun_as_map:
  "\<exists>ks. distinct ks \<and> set ks = set ids
      \<and> dict_of (map (\<lambda>k. (k, f k)) ids) = map (\<lambda>k. (k, f k)) ks"
proof -
  let ?L = "dict_of (map (\<lambda>k. (k, f k)) ids)"
  have d: "distinct (map fst ?L)" by (rule distinct_dict_of)
  have e: "\<And>k v. (k, v) \<in> set ?L \<Longrightarrow> k \<in> set ids \<and> v = f k"
  proof -
    fix k v assume "(k, v) \<in> set ?L"
    with d have "map_of ?L k = Some v" by simp
    then show "k \<in> set ids \<and> v = f k"
      by (simp add: map_of_dict_of_fun split: if_splits)
  qed
  have s: "set (map fst ?L) = set ids"
  proof
    show "set (map fst ?L) \<subseteq> set ids" using e by fastforce
    show "set ids \<subseteq> set (map fst ?L)"
    proof
      fix k assume "k \<in> set ids"
      then have "map_of ?L k = Some (f k)" by (simp add: map_of_dict_of_fun)
      then have "(k, f k) \<in> set ?L" by (rule map_of_SomeD)
      then show "k \<in> set (map fst ?L)" by force
    qed
  qed
  have "map ((\<lambda>k. (k, f k)) \<circ> fst) ?L = ?L"
  proof (rule map_idI)
    fix x assume x: "x \<in> set ?L"
    obtain k v where kv: "x = (k, v)" by (cases x)
    with x e[of k v] have "v = f k" by simp
    with kv show "((\<lambda>k. (k, f k)) \<circ> fst) x = x" by simp
  qed
  then have "map (\<lambda>k. (k, f k)) (map fst ?L) = ?L" by simp
  then have "?L = map (\<lambda>k. (k, f k)) (map fst ?L)" by simp
  with d s show ?thesis by blast
qed

lemma str_keys_distinct:
  assumes "distinct ks"
  shows "str_keys (map (\<lambda>k. (k, g k)) ks) = map (\<lambda>k. (str_int k, g k)) ks"
proof -
  from assms have 1: "dict_of (map (\<lambda>k. (k, g k)) ks) = map (\<lambda>k. (k, g k)) ks"
    by (intro dict_of_distinct) (simp add: comp_def)
  from assms have "distinct (map fst (map (\<lambda>k. (str_int k, g k)) ks))"
    by (simp add: comp_def distinct_map inj_str_int[THEN inj_on_subset])
  then have "dict_of (map (\<lambda>k. (str_int k, g k)) ks) = map (\<lambda>k. (str_int k, g k)) ks"
    by (rule dict_of_distinct)
  with 1 show ?thesis by (simp add: str_keys_def comp_def)
qed

lemma map_of_str_keyed:
  "map_of (map (\<lambda>k. (str_int k, g k)) ks) (str_int c) = (if c \<in> set ks then Some (g c) else None)"
proof (induction ks)
  case Nil show ?case by simp
next
  case (Cons k ks)
  then show ?case using str_int_inj by auto
qed

lemma dropna_Num: "dropna (map Num rs) = map Num rs"
  by (induction rs) (simp_all add: dropna_def)

lemma foldl_fadd_Num: "foldl fadd (Num a) (map Num rs) = Num (a + sum_list rs)"
  by (induction rs arbitrary: a) (simp_all add: add.assoc)

lemma pd_sum_Num: "pd_sum (map Num rs) = Num (sum_list rs)"
  by (simp add: pd_sum_def dropna_Num foldl_fadd_Num)

lemma company_mom_Num:
  assumes "2 \<le> length (closes_of df cid) \<longrightarrow> hd (closes_of df cid) \<noteq> 0"
  shows "company_mom df cid =
     Num (if length (closes_of df cid) < 2 then 0
          else last (closes_of df cid) / hd (closes_of df cid) - 1)"
  using assms by (simp add: company_mom_def Let_def fsub_def)

lemma clamp_negative_Num:
  "clamp_negative (map (\<lambda>k. (k, Num (r k))) ks) = map (\<lambda>k. (k, Num (max 0 (r k)))) ks"
  by (simp add: clamp_negative_def max_def)

lemma series_div_Num:
  "t \<noteq> 0 \<Longrightarrow> series_div (map (\<lambda>k. (k, Num (r k))) ks) (Num t) = map (\<lambda>k. (k, Num (r k / t))) ks"
  by (simp add: series_div_def)

lemma pd_sum_series_Num:
  "pd_sum (map snd (map (\<lambda>k. (k, Num (r k))) ks)) = Num (sum_list (map r ks))"
proof -
  have "map snd (map (\<lambda>k. (k, Num (r k))) ks) = map Num (map r ks)" by (simp add: comp_def)
  then show ?thesis by (simp only: pd_sum_Num)
qed

lemma str_keys_const_lookup:
  "map_of (str_keys (series_const c ids)) (str_int cid) = (if cid \<in> set ids then Some c else None)"
  "fst ` set (str_keys (series_const c ids)) = str_int ` set ids"
proof -
  obtain ks where ks: "distinct ks" "set ks = set ids"
    "dict_of (map (\<lambda>k. (k, c)) ids) = map (\<lambda>k. (k, c)) ks"
    using dict_of_fun_as_map[of ids "\<lambda>_. c"] by blast
  have "str_keys (series_const c ids) = dict_of (map (\<lambda>(k, v). (str_int k, v)) (map (\<lambda>k. (k, c)) ks))"
    by (simp only: str_keys_def series_const_def ks(3))
  also have "\<dots> = dict_of (map (\<lambda>k. (str_int k, c)) ks)" by (simp add: comp_def)
  also have "\<dots> = map (\<lambda>k. (str_int k, c)) ks"
    using ks(1) by (intro dict_of_distinct)
      (simp add: comp_def distinct_map inj_str_int[THEN inj_on_subset])
  finally have e: "str_keys (series_const c ids) = map (\<lambda>k. (str_int k, c)) ks" .
  show "map_of (str_keys (series_const c ids)) (str_int cid) = (if cid \<in> set ids then Some c else None)"
    using ks(2) by (simp add: e map_of_str_keyed)
  show "fst ` set (str_keys (series_const c ids)) = str_int ` set ids"
    using ks(2) by (force simp: e)
qed

lemma py_sum_Num: "py_sum (map Num rs) = Num (sum_list rs)"
  by (simp add: py_sum_def foldl_fadd_Num)

lemma weights_shape:
  assumes "\<forall>k \<in> set ks. 0 \<le> r k" and "sum_list (map r ks) = 1"
  shows "map fst (map (\<lambda>k. (str_int k, Num (r k))) ks) = map str_int ks
       \<and> (\<forall>v \<in> set (map snd (map (\<lambda>k. (str_int k, Num (r k))) ks)). \<exists>x. v = Num x \<and> 0 \<le> x)
       \<and> py_sum (map snd (map (\<lambda>k. (str_int k, Num (r k))) ks)) = Num 1"
proof -
  have "map snd (map (\<lambda>k. (str_int k, Num (r k))) ks) = map Num (map r ks)"
    by (simp add: comp_def)
  then have "py_sum (map snd (map (\<lambda>k. (str_int k, Num (r k))) ks)) = Num 1"
    using assms(2) by (simp only: py_sum_Num)
  with assms(1) show ?thesis by (auto simp: comp_def)
qed

lemma normalized_weights:
  assumes "distinct ks" and "\<forall>k \<in> set ks. 0 \<le> r k" and "0 < sum_list (map r ks)"
  shows "\<exists>w. str_keys (series_div (map (\<lambda>k. (k, Num (r k))) ks)
                 (pd_sum (map snd (map (\<lambda>k. (k, Num (r k))) ks)))) = w
       \<and> map fst w = map str_int ks
       \<and> (\<forall>v \<in> set (map snd w). \<exists>x. v = Num x \<and> 0 \<le> x)
       \<and> py_sum (map snd w) = Num 1"
proof -
  let ?t = "sum_list (map r ks)"
  let ?w = "map (\<lambda>k. (str_int k, Num (r k / ?t))) ks"
  from assms(3) have t: "?t \<noteq> 0" by simp
  have "str_keys (series_div (map (\<lambda>k. (k, Num (r k))) ks)
                 (pd_sum (map snd (map (\<lambda>k. (k, Num (r k))) ks)))) = ?w"
    using assms(1) by (simp only: pd_sum_series_Num series_div_Num[OF t] str_keys_distinct)
  moreover have "\<forall>k \<in> set ks. 0 \<le> r k / ?t" using assms(2,3) by simp
  moreover have "sum_list (map (\<lambda>k. r k / ?t) ks) = 1"
  proof -
    have "sum_list (map (\<lambda>k. r k * (1 / ?t)) ks) = ?t * (1 / ?t)"
      by (simp only: sum_list_mult_const)
    with t show ?thesis by simp
  qed
  ultimately show ?thesis using weights_shape[of ks "\<lambda>k. r k / ?t"] by simp
qed

lemma const_weights:
  assumes "distinct ks" and "ks \<noteq> []"
  shows "str_keys (series_const (Num (1 / real (length ks))) ks)
           = map (\<lambda>k. (str_int k, Num (1 / real (length ks)))) ks"
    and "map fst (map (\<lambda>k. (str_int k, Num (1 / real (length ks)))) ks) = map str_int ks
       \<and> (\<forall>v \<in> set (map snd (map (\<lambda>k. (str_int k, Num (1 / real (length ks)))) ks)). \<exists>x. v = Num x \<and> 0 \<le> x)
       \<and> py_sum (map snd (map (\<lambda>k. (str_int k, Num (1 / real (length ks)))) ks)) = Num 1"
proof -
  show "str_keys (series_const (Num (1 / real (length ks))) ks)
           = map (\<lambda>k. (str_int k, Num (1 / real (length ks)))) ks"
    using str_keys_distinct[OF assms(1)] by (simp only: series_const_def)
  have "sum_list (map (\<lambda>k. 1 / real (length ks)) ks) = 1"
    using assms(2) by (simp add: sum_list_triv)
  then show "map fst (map (\<lambda>k. (str_int k, Num (1 / real (length ks)))) ks) = map str_int ks
       \<and> (\<forall>v \<in> set (map snd (map (\<lambda>k. (str_int k, Num (1 / real (length ks)))) ks)). \<exists>x. v = Num x \<and> 0 \<le> x)
       \<and> py_sum (map snd (map (\<lambda>k. (str_int k, Num (1 / real (length ks)))) ks)) = Num 1"
    by (intro weights_shape) simp_all
qed

lemma equal_scheme:
  assumes "distinct ks" and "ks \<noteq> []"
  shows "compute_weights d ks year ''equal'' lv mp
           = Inr (map (\<lambda>k. (str_int k, Num (1 / real (length ks)))) ks)"
proof -
  from assms(1) have "distinct (map fst (map (\<lambda>cid. (cid, Num (1 / real (length ks)))) (map str_int ks)))"
    by (simp add: comp_def distinct_map inj_str_int[THEN inj_on_subset])
  then have "dict_of (map (\<lambda>cid. (cid, Num (1 / real (length ks)))) (map str_int ks))
      = map (\<lambda>cid. (cid, Num (1 / real (length ks)))) (map str_int ks)"
    by (rule dict_of_distinct)
  with assms(2) show ?thesis by (simp add: compute_weights_def comp_def)
qed


lemma reindex_distinct:
  assumes "distinct (map fst s)"
  shows "reindex s target c = Inr (map (\<lambda>k. (k, dict_get s k c)) target)"
proof (cases "map fst s = target")
  case True
  have "map ((\<lambda>k. (k, dict_get s k c)) \<circ> fst) s = s"
  proof (rule map_idI)
    fix x assume x: "x \<in> set s"
    obtain k v where kv: "x = (k, v)" by (cases x)
    with x assms have "map_of s k = Some v" by simp
    with kv show "((\<lambda>k. (k, dict_get s k c)) \<circ> fst) x = x" by (simp add: dict_get_def)
  qed
  then have "map (\<lambda>k. (k, dict_get s k c)) (map fst s) = s" by simp
  with True show ?thesis by (simp add: reindex_def)
next
  case False
  with assms show ?thesis by (simp add: reindex_def)
qed

lemma sum_list_pos_member:
  fixes r :: "'a \<Rightarrow> real"
  assumes "\<forall>k \<in> set ks. 0 \<le> r k" and "k \<in> set ks" and "0 < r k"
  shows "0 < sum_list (map r ks)"
  using assms
proof (induction ks)
  case Nil then show ?case by simp
next
  case (Cons a ks)
  have rest: "0 \<le> sum_list (map r ks)" using Cons.prems(1) by (intro sum_list_nonneg) auto
  show ?case
  proof (cases "k = a")
    case True
    with Cons.prems(3) rest show ?thesis by simp
  next
    case False
    with Cons have "0 < sum_list (map r ks)" by simp
    moreover from Cons.prems(1) have "0 \<le> r a" by simp
    ultimately show ?thesis by simp
  qed
qed

lemma dict_get_fact_series:
  "dict_get (map (\<lambda>f. (fin_company_id f, Num (fin_value f))) df) k (Num 1)
     = Num (case map_of (map (\<lambda>f. (fin_company_id f, fin_value f)) df) k of
              None \<Rightarrow> 1 | Some v \<Rightarrow> v)"
  by (induction df) (simp_all add: dict_get_def)

lemma market_caps_series:
  assumes u: "market_caps_usable d ids year" and ne: "ids \<noteq> []"
  shows "\<exists>r. get_market_caps d ids year = Inr (map (\<lambda>k. (k, Num (r k))) ids)
           \<and> (\<forall>k \<in> set ids. 0 \<le> r k) \<and> 0 < sum_list (map r ids)"
proof -
  have ones: "0 < sum_list (map (\<lambda>k. 1::real) ids)"
    using ne by (simp add: sum_list_triv)
  show ?thesis
  proof (cases "first_metric d ''market_cap''")
    case None
    then have "get_market_caps d ids year = Inr (map (\<lambda>k. (k, Num ((\<lambda>k. 1) k))) ids)"
      by (simp add: get_market_caps_def series_const_def)
    with ones show ?thesis by (intro exI[of _ "\<lambda>k. 1"]) simp
  next
    case (Some m)
    define df where "df = filter (\<lambda>f. fin_company_id f \<in> set ids
                               \<and> endswith (period_label f) (str_int (year - 1))
                               \<and> fin_metric_id f = metric_id m) (financials d)"
    from u Some have dist: "distinct (map fin_company_id df)"
      and nonneg: "\<forall>f \<in> set df. 0 \<le> fin_value f"
      and some: "df = [] \<or> (\<exists>f \<in> set df. 0 < fin_value f)
                  \<or> (\<exists>cid \<in> set ids. cid \<notin> fin_company_id ` set df)"
      by (simp_all add: market_caps_usable_def Let_def df_def)
    show ?thesis
    proof (cases "df = []")
      case True
      with Some have "get_market_caps d ids year = Inr (map (\<lambda>k. (k, Num ((\<lambda>k. 1) k))) ids)"
        by (simp add: get_market_caps_def series_const_def df_def Let_def)
      with ones show ?thesis by (intro exI[of _ "\<lambda>k. 1"]) simp
    next
      case False
      define pairs where "pairs = map (\<lambda>f. (fin_company_id f, fin_value f)) df"
      define r where "r = (\<lambda>k. case map_of pairs k of None \<Rightarrow> (1::real) | Some v \<Rightarrow> v)"
      have dp: "distinct (map fst pairs)" using dist by (simp add: pairs_def comp_def)
      have "distinct (map fst (map (\<lambda>f. (fin_company_id f, Num (fin_value f))) df))"
        using dist by (simp add: comp_def)
      then have "reindex (map (\<lambda>f. (fin_company_id f, Num (fin_value f))) df) ids (Num 1)
          = Inr (map (\<lambda>k. (k, Num (r k))) ids)"
        by (simp add: reindex_distinct dict_get_fact_series r_def pairs_def)
      with Some False have g: "get_market_caps d ids year = Inr (map (\<lambda>k. (k, Num (r k))) ids)"
        by (simp add: get_market_caps_def df_def Let_def)
      have rn: "\<forall>k \<in> set ids. 0 \<le> r k"
      proof
        fix k assume "k \<in> set ids"
        show "0 \<le> r k"
        proof (cases "map_of pairs k")
          case None then show ?thesis by (simp add: r_def)
        next
          case (Some v)
          then have "(k, v) \<in> set pairs" by (rule map_of_SomeD)
          then obtain f where "f \<in> set df" "v = fin_value f" by (auto simp: pairs_def)
          with nonneg Some show ?thesis by (simp add: r_def)
        qed
      qed
      have "\<exists>k \<in> set ids. 0 < r k"
      proof -
        from some False consider
          (pos) "\<exists>f \<in> set df. 0 < fin_value f"
          | (miss) "\<exists>cid \<in> set ids. cid \<notin> fin_company_id ` set df" by blast
        then show ?thesis
        proof cases
          case pos
          then obtain f where f: "f \<in> set df" "0 < fin_value f" by blast
          then have "(fin_company_id f, fin_value f) \<in> set pairs" by (force simp: pairs_def)
          with dp have "map_of pairs (fin_company_id f) = Some (fin_value f)" by simp
          with f(2) have "0 < r (fin_company_id f)" by (simp add: r_def)
          moreover from f(1) have "fin_company_id f \<in> set ids" by (simp add: df_def)
          ultimately show ?thesis by blast
        next
          case miss
          then obtain cid where c: "cid \<in> set ids" "cid \<notin> fin_company_id ` set df" by blast
          then have "cid \<notin> fst ` set pairs" by (force simp: pairs_def)
          then have "map_of pairs cid = None" by (simp add: map_of_eq_None_iff)
          then have "0 < r cid" by (simp add: r_def)
          with c(1) show ?thesis by blast
        qed
      qed
      then obtain k where "k \<in> set ids" "0 < r k" by blast
      with rn have "0 < sum_list (map r ids)" by (rule sum_list_pos_member)
      with g rn show ?thesis by blast
    qed
  qed
qed

lemma pct_from_Num:
  "prev \<noteq> 0 \<Longrightarrow> \<forall>x \<in> set xs. x \<noteq> 0 \<Longrightarrow>
   \<exists>rs. pct_from (Num prev) (map Num xs) = map Num rs \<and> length rs = length xs"
proof (induction xs arbitrary: prev)
  case Nil
  then show ?case by simp
next
  case (Cons x xs)
  then obtain rs where rs: "pct_from (Num x) (map Num xs) = map Num rs" "length rs = length xs"
    by (metis list.set_intros(1) list.set_intros(2))
  from Cons.prems(1) have "fsub (fdiv (Num x) (Num prev)) (Num 1) = Num (x / prev - 1)"
    by (simp add: fsub_def)
  with rs have "pct_from (Num prev) (map Num (x # xs)) = map Num ((x / prev - 1) # rs)
      \<and> length ((x / prev - 1) # rs) = length (x # xs)"
    by simp
  then show ?case by blast
qed

lemma pd_std_Num: "2 \<le> length rs \<Longrightarrow> \<exists>v. pd_std (map Num rs) = Num v \<and> 0 \<le> v"
proof -
  assume l: "2 \<le> length rs"
  define m where "m = sum_list rs / real (length rs)"
  define ss where "ss = sum_list (map (\<lambda>r. (r - m)\<^sup>2) rs)"
  have inf: "PInf \<notin> set (map Num rs)" "NInf \<notin> set (map Num rs)" by auto
  have tn: "map the_num (map Num rs) = rs" by (simp add: comp_def)
  have "pd_std (map Num rs) = Num (sqrt (ss / real (length rs - 1)))"
    using l inf unfolding pd_std_def dropna_Num Let_def tn ss_def m_def
    by (simp del: set_map)
  moreover have "0 \<le> ss" unfolding ss_def by (rule sum_list_nonneg) auto
  then have "0 \<le> sqrt (ss / real (length rs - 1))" by simp
  ultimately show ?thesis by blast
qed

lemma set_tail: "set (tail n xs) \<subseteq> set xs"
  by (auto simp: tail_def dest: in_set_dropD)

lemma set_closes_of: "set (closes_of df cid) \<subseteq> price_close ` set df"
  by (auto simp: closes_of_def)

lemma company_vol_Num:
  assumes nz: "\<forall>p \<in> set df. price_close p \<noteq> 0"
    and l: "length (tail lookback (closes_of df cid)) \<noteq> 2"
  shows "\<exists>v. company_vol df lookback cid = Num v \<and> 0 \<le> v"
proof (cases "length (tail lookback (closes_of df cid)) < 2")
  case True
  then show ?thesis by (intro exI[of _ "2 / 10"]) (simp add: company_vol_def)
next
  case False
  define prices where "prices = tail lookback (closes_of df cid)"
  from False l have len: "3 \<le> length prices" by (simp add: prices_def)
  have "set prices \<subseteq> price_close ` set df"
    unfolding prices_def using set_tail set_closes_of by fastforce
  with nz have pnz: "\<forall>x \<in> set prices. x \<noteq> 0" by auto
  from len obtain x xs where p: "prices = x # xs" by (cases prices) auto
  with pnz have "x \<noteq> 0" "\<forall>y \<in> set xs. y \<noteq> 0" by auto
  then obtain rs where rs: "pct_from (Num x) (map Num xs) = map Num rs" "length rs = length xs"
    using pct_from_Num by blast
  from p rs have "dropna (pct_change (map Num prices)) = map Num rs"
    by (simp add: dropna_def dropna_Num[unfolded dropna_def])
  moreover from len p rs(2) have "2 \<le> length rs" by simp
  then obtain v where v: "pd_std (map Num rs) = Num v" "0 \<le> v" using pd_std_Num by blast
  ultimately have "company_vol df lookback cid = Num (v * sqrt 252)"
    using False by (simp add: company_vol_def prices_def[symmetric] Let_def)
  with v(2) show ?thesis by simp
qed

lemma volatility_series:
  assumes u: "volatilities_usable d ids year lookback" and dist: "distinct ids"
  shows "\<exists>v. get_volatility d ids year lookback = Inr (map (\<lambda>k. (k, Num (v k))) ids)
           \<and> (\<forall>k \<in> set ids. 0 \<le> v k)"
proof -
  from u obtain s e where win: "lagged_window year (int_times_1_5 lookback) = Inr (s, e)"
    by (auto simp: volatilities_usable_def split: sum.splits)
  define df where "df = price_window d ids s e"
  from u win have nz: "\<forall>p \<in> set df. price_close p \<noteq> 0"
    and l: "\<forall>cid \<in> set ids. length (tail lookback (closes_of df cid)) \<noteq> 2"
    by (simp_all add: volatilities_usable_def df_def Let_def)
  show ?thesis
  proof (cases "df = []")
    case True
    with win have "get_volatility d ids year lookback = Inr (map (\<lambda>k. (k, Num ((\<lambda>k. 1) k))) ids)"
      by (simp add: get_volatility_def df_def series_const_def)
    then show ?thesis by (intro exI[of _ "\<lambda>k. 1"]) simp
  next
    case False
    define v where "v = (\<lambda>k. the_num (company_vol df lookback k))"
    have cv: "\<And>k. k \<in> set ids \<Longrightarrow> company_vol df lookback k = Num (v k) \<and> 0 \<le> v k"
    proof -
      fix k assume "k \<in> set ids"
      with l have "length (tail lookback (closes_of df k)) \<noteq> 2" by blast
      with nz obtain x where "company_vol df lookback k = Num x" "0 \<le> x"
        using company_vol_Num by blast
      then show "company_vol df lookback k = Num (v k) \<and> 0 \<le> v k" by (simp add: v_def)
    qed
    then have e1: "map (\<lambda>cid. (cid, company_vol df lookback cid)) ids = map (\<lambda>k. (k, Num (v k))) ids"
      by simp
    from dist have e2: "dict_of (map (\<lambda>k. (k, Num (v k))) ids) = map (\<lambda>k. (k, Num (v k))) ids"
      by (intro dict_of_distinct) (simp add: comp_def)
    have "get_volatility d ids year lookback
        = Inr (dict_of (map (\<lambda>cid. (cid, company_vol df lookback cid)) ids))"
      using win False by (simp add: get_volatility_def df_def[symmetric])
    then have "get_volatility d ids year lookback = Inr (map (\<lambda>k. (k, Num (v k))) ids)"
      by (simp only: e1 e2)
    with cv show ?thesis by blast
  qed
qed

lemma momentum_series_distinct:
  assumes u: "momentum_usable d ids year mp" and dist: "distinct ids"
  shows "\<exists>c. mom_series d ids year mp = Inr (map (\<lambda>k. (k, Num (c k))) ids)
           \<and> (\<forall>k \<in> set ids. 0 \<le> c k)"
proof -
  from u obtain s e where win: "lagged_window year mp = Inr (s, e)"
    by (auto simp: momentum_usable_def split: sum.splits)
  define df where "df = price_window d ids s e"
  from u win have nz: "\<forall>cid \<in> set ids. 2 \<le> length (closes_of df cid) \<longrightarrow> hd (closes_of df cid) \<noteq> 0"
    by (simp add: momentum_usable_def df_def Let_def)
  define score where "score = (\<lambda>cid. if length (closes_of df cid) < 2 then 0
                              else last (closes_of df cid) / hd (closes_of df cid) - 1)"
  have "\<And>k. k \<in> set ids \<Longrightarrow> company_mom df k = Num (score k)"
    using nz company_mom_Num[of df] by (simp add: score_def)
  then have e1: "map (\<lambda>cid. (cid, company_mom df cid)) ids = map (\<lambda>k. (k, Num (score k))) ids"
    by simp
  from dist have e2: "dict_of (map (\<lambda>k. (k, Num (score k))) ids) = map (\<lambda>k. (k, Num (score k))) ids"
    by (intro dict_of_distinct) (simp add: comp_def)
  have "mom_series d ids year mp
      = Inr (clamp_negative (dict_of (map (\<lambda>cid. (cid, company_mom df cid)) ids)))"
    using win by (simp add: mom_series_def df_def[symmetric])
  then have "mom_series d ids year mp = Inr (map (\<lambda>k. (k, Num (max 0 (score k)))) ids)"
    by (simp only: e1 e2 clamp_negative_Num)
  then show ?thesis by (intro exI[of _ "\<lambda>k. max 0 (score k)"]) simp
qed

section \<open>Weighting schemes\<close>

text \<open>
  Claim C4, as amended.  When the lagged window holds at least one price row of a listed
  company, every listed company with fewer than 2 closes among the last \<open>lookback\<close> rows
  of the window gets the volatility 0.2.  When the window holds no row at all, every
  listed company gets the volatility 1.
\<close>

theorem default_volatility:
  assumes "lagged_window year (int_times_1_5 lookback) = Inr (start_date, end_date)"
  shows "\<exists>vols. get_volatility d company_ids year lookback = Inr vols
     \<and> (price_window d company_ids start_date end_date = []
          \<longrightarrow> vols = series_const (Num 1) company_ids)
     \<and> (price_window d company_ids start_date end_date \<noteq> []
          \<longrightarrow> (\<forall>cid \<in> set company_ids.
                 length (tail lookback (closes_of (price_window d company_ids start_date end_date) cid)) < 2
                 \<longrightarrow> map_of vols cid = Some (Num (2 / 10))))"
proof (cases "price_window d company_ids start_date end_date = []")
  case True
  with assms show ?thesis by (simp add: get_volatility_def)
next
  case False
  let ?df = "price_window d company_ids start_date end_date"
  let ?vols = "dict_of (map (\<lambda>cid. (cid, company_vol ?df lookback cid)) company_ids)"
  from assms False have g: "get_volatility d company_ids year lookback = Inr ?vols"
    by (simp add: get_volatility_def)
  have "\<forall>cid \<in> set company_ids. length (tail lookback (closes_of ?df cid)) < 2
          \<longrightarrow> map_of ?vols cid = Some (Num (2 / 10))"
    by (simp add: map_of_dict_of_fun company_vol_def)
  with g False show ?thesis by simp
qed

theorem default_volatility_witness:
  "lagged_window 2021 (int_times_1_5 252) = Inr (737412, 737790)
   \<and> price_window dbp [2, 3] 737412 737790 \<noteq> []
   \<and> closes_of (price_window dbp [2, 3] 737412 737790) 3 = []
   \<and> (\<exists>vols. get_volatility dbp [2, 3] 2021 252 = Inr vols \<and> map_of vols 3 = Some (Num (2 / 10)))"
proof -
  have w: "lagged_window 2021 (int_times_1_5 252) = Inr (737412, 737790)" by code_simp
  have p: "price_window dbp [2, 3] 737412 737790 \<noteq> []" by code_simp
  have c: "closes_of (price_window dbp [2, 3] 737412 737790) 3 = []" by code_simp
  then have l: "length (tail 252 (closes_of (price_window dbp [2, 3] 737412 737790) 3)) < 2"
    by (simp add: tail_def)
  from default_volatility[OF w, of dbp "[2, 3]"] p l
  have "\<exists>vols. get_volatility dbp [2, 3] 2021 252 = Inr vols \<and> map_of vols 3 = Some (Num (2 / 10))"
    by auto
  with w p c show ?thesis by simp
qed

text \<open>
  Claim C4 as stated fails: with no price row in the window, company 3 has no close at
  all and is given the volatility 1, by the guard \<^verbatim>\<open>if df.empty\<close>.
\<close>

theorem default_volatility_not_applied_without_rows:
  "closes_of (price_window dbp [3] 737412 737790) 3 = []
   \<and> get_volatility dbp [3] 2021 252 = Inr [(3, Num 1)]
   \<and> Num 1 \<noteq> Num (2 / 10)"
proof -
  have w: "lagged_window 2021 (int_times_1_5 252) = Inr (737412, 737790)" by code_simp
  have p: "price_window dbp [3] 737412 737790 = []" by code_simp
  have c: "closes_of (price_window dbp [3] 737412 737790) 3 = []" by code_simp
  from w p have "get_volatility dbp [3] 2021 252 = Inr [(3, Num 1)]"
    by (simp add: get_volatility_def series_const_def)
  with c show ?thesis by simp
qed

text \<open>
  Claim C3.  In the momentum scheme, for a window whose dates exist and companies whose
  first close in the window is not zero, so that every trailing return is a number:
  the score of a company is its trailing return (0 with fewer than 2 closes), clamped
  below at 0.  When the clamped scores sum to 0, that is when all of them are 0, every
  listed company gets the weight \<open>1 / n\<close>, \<open>n\<close> the length of the input list.  Otherwise
  the weight of a company is its clamped score divided by the sum of the clamped scores,
  so a company of clamped score 0 gets weight 0.
\<close>

theorem momentum_weights:
  assumes win: "lagged_window year momentum_period = Inr (start_date, end_date)"
    and ne: "company_ids \<noteq> []"
    and df: "df = price_window d company_ids start_date end_date"
    and nz: "\<forall>cid \<in> set company_ids. 2 \<le> length (closes_of df cid) \<longrightarrow> hd (closes_of df cid) \<noteq> 0"
    and score: "score = (\<lambda>cid. if length (closes_of df cid) < 2 then 0
                              else last (closes_of df cid) / hd (closes_of df cid) - 1)"
    and tot_def: "tot = (\<Sum>cid \<in> set company_ids. max 0 (score cid))"
  shows "\<exists>mom w.
      mom_series d company_ids year momentum_period = Inr mom
    \<and> (\<forall>cid \<in> set company_ids. map_of mom cid = Some (Num (max 0 (score cid))))
    \<and> compute_weights d company_ids year ''momentum'' lookback_vol momentum_period = Inr w
    \<and> fst ` set w = str_int ` set company_ids
    \<and> (tot = 0 \<longleftrightarrow> (\<forall>cid \<in> set company_ids. max 0 (score cid) = 0))
    \<and> (\<forall>cid \<in> set company_ids.
          map_of w (str_int cid)
            = Some (Num (if tot = 0 then 1 / real (length company_ids)
                         else max 0 (score cid) / tot)))"
proof -
  obtain ks where ks: "distinct ks" "set ks = set company_ids"
    "dict_of (map (\<lambda>k. (k, company_mom df k)) company_ids) = map (\<lambda>k. (k, company_mom df k)) ks"
    using dict_of_fun_as_map[of company_ids "company_mom df"] by blast
  have cm: "\<And>k. k \<in> set ks \<Longrightarrow> company_mom df k = Num (score k)"
    using nz ks(2) score company_mom_Num[of df] by simp
  then have "map (\<lambda>k. (k, company_mom df k)) ks = map (\<lambda>k. (k, Num (score k))) ks" by simp
  with ks(3) have raw: "dict_of (map (\<lambda>k. (k, company_mom df k)) company_ids)
      = map (\<lambda>k. (k, Num (score k))) ks" by simp
  have "mom_series d company_ids year momentum_period
      = Inr (clamp_negative (dict_of (map (\<lambda>k. (k, company_mom df k)) company_ids)))"
    using win df by (simp add: mom_series_def)
  then have mom: "mom_series d company_ids year momentum_period
      = Inr (map (\<lambda>k. (k, Num (max 0 (score k)))) ks)" (is "_ = Inr ?mom")
    by (simp only: raw clamp_negative_Num)
  have look: "\<forall>cid \<in> set company_ids. map_of ?mom cid = Some (Num (max 0 (score cid)))"
    using ks(2) by (simp add: map_of_map_restrict restrict_map_def)
  have "sum_list (map (\<lambda>k. max 0 (score k)) ks) = tot"
    using ks(1,2) tot_def by (simp add: sum_list_distinct_conv_sum_set)
  then have sum: "pd_sum (map snd ?mom) = Num tot"
    by (simp only: pd_sum_series_Num)
  have nonneg: "0 \<le> tot" unfolding tot_def by (rule sum_nonneg) simp
  have zero: "tot = 0 \<longleftrightarrow> (\<forall>cid \<in> set company_ids. max 0 (score cid) = 0)"
    unfolding tot_def by (subst sum_nonneg_eq_0_iff) simp_all
  show ?thesis
  proof (cases "tot = 0")
    case True
    let ?w = "str_keys (series_const (Num (1 / real (length company_ids))) company_ids)"
    from True mom sum ne
    have "compute_weights d company_ids year ''momentum'' lookback_vol momentum_period = Inr ?w"
      by (simp add: compute_weights_def)
    with mom look zero True show ?thesis
      by (simp add: str_keys_const_lookup)
  next
    case False
    with nonneg have pos: "tot > 0" by simp
    let ?w = "map (\<lambda>k. (str_int k, Num (max 0 (score k) / tot))) ks"
    have "str_keys (series_div ?mom (Num tot)) = ?w"
      using False ks(1) by (simp add: series_div_Num str_keys_distinct)
    with pos mom sum ne
    have cw: "compute_weights d company_ids year ''momentum'' lookback_vol momentum_period = Inr ?w"
      by (simp add: compute_weights_def)
    have k: "fst ` set ?w = str_int ` set company_ids" using ks(2) by force
    have "\<forall>cid \<in> set company_ids. map_of ?w (str_int cid) = Some (Num (max 0 (score cid) / tot))"
      using ks(2) by (simp add: map_of_str_keyed)
    with mom look zero False cw k show ?thesis by simp
  qed
qed


theorem momentum_weights_witness:
  "(\<exists>w. compute_weights dbp [1, 2, 3] 2021 ''momentum'' 252 252 = Inr w
        \<and> map_of w ''1'' = Some (Num 1) \<and> map_of w ''2'' = Some (Num 0)
        \<and> map_of w ''3'' = Some (Num 0))
   \<and> (\<exists>w. compute_weights dbp [2, 3] 2021 ''momentum'' 252 252 = Inr w
        \<and> map_of w ''2'' = Some (Num (1 / 2)) \<and> map_of w ''3'' = Some (Num (1 / 2)))"
proof -
  have win: "lagged_window 2021 252 = Inr (737538, 737790)" by code_simp
  have s: "str_int 1 = ''1''" "str_int 2 = ''2''" "str_int 3 = ''3''" by code_simp+
  have c: "closes_of (price_window dbp [1, 2, 3] 737538 737790) 1 = [100, 110, 130]"
          "closes_of (price_window dbp [1, 2, 3] 737538 737790) 2 = [100, 90]"
          "closes_of (price_window dbp [1, 2, 3] 737538 737790) 3 = []"
    by code_simp+
  have c': "closes_of (price_window dbp [2, 3] 737538 737790) 2 = [100, 90]"
           "closes_of (price_window dbp [2, 3] 737538 737790) 3 = []"
    by code_simp+
  have nz: "\<forall>cid \<in> set [1, 2, 3].
      2 \<le> length (closes_of (price_window dbp [1, 2, 3] 737538 737790) cid)
      \<longrightarrow> hd (closes_of (price_window dbp [1, 2, 3] 737538 737790) cid) \<noteq> 0"
    by (simp add: c)
  have nz': "\<forall>cid \<in> set [2, 3].
      2 \<le> length (closes_of (price_window dbp [2, 3] 737538 737790) cid)
      \<longrightarrow> hd (closes_of (price_window dbp [2, 3] 737538 737790) cid) \<noteq> 0"
    by (simp add: c')
  have a: "\<exists>w. compute_weights dbp [1, 2, 3] 2021 ''momentum'' 252 252 = Inr w
        \<and> map_of w ''1'' = Some (Num 1) \<and> map_of w ''2'' = Some (Num 0)
        \<and> map_of w ''3'' = Some (Num 0)"
    using momentum_weights[OF win _ refl nz refl refl, of 252] by (auto simp: c s)
  have b: "\<exists>w. compute_weights dbp [2, 3] 2021 ''momentum'' 252 252 = Inr w
        \<and> map_of w ''2'' = Some (Num (1 / 2)) \<and> map_of w ''3'' = Some (Num (1 / 2))"
    using momentum_weights[OF win _ refl nz' refl refl, of 252] by (auto simp: c' s)
  from a b show ?thesis by blast
qed

text \<open>
  Claim C1, at its failing inputs.  \<^verbatim>\<open>get_volatility\<close> gives the default 0.2 to a company
  with fewer than 2 closes, so a company with exactly 2 closes keeps its single return,
  whose sample deviation is not a number: its volatility and its inverse-volatility weight
  are \<^verbatim>\<open>nan\<close>, where the claim has a non-negative weight.  Company 2 of \<open>dbp\<close> has the two
  closes 100 and 90 in the window before 2021; company 3 has none and gets the default.
  The market-cap scheme divides by the sum of the caps without the test for a positive
  sum that the momentum scheme makes: caps of 0 and 0 give two weights \<^verbatim>\<open>nan\<close>.
\<close>

theorem two_closes_give_nan_weight:
  "get_volatility dbp [2, 3] 2021 252 = Inr [(2, NaN), (3, Num (2 / 10))]
   \<and> compute_weights dbp [2, 3] 2021 ''inverse_vol'' 252 252 = Inr [(''2'', NaN), (''3'', Num 1)]
   \<and> compute_weights dbz [1, 2] 2021 ''market_cap'' 252 252 = Inr [(''1'', NaN), (''2'', NaN)]"
proof -
  have s: "str_int 1 = ''1''" "str_int 2 = ''2''" "str_int 3 = ''3''" by code_simp+
  have "get_market_caps dbz [1, 2] 2021 = Inr [(1, Num 0), (2, Num 0)]" by code_simp
  then have b: "compute_weights dbz [1, 2] 2021 ''market_cap'' 252 252 = Inr [(''1'', NaN), (''2'', NaN)]"
    by (simp add: compute_weights_def series_div_def pd_sum_def dropna_def str_keys_def dict_of_def s)
  have w: "lagged_window 2021 (int_times_1_5 252) = Inr (737412, 737790)" by code_simp
  have p: "price_window dbp [2, 3] 737412 737790
      = [\<lparr>price_company_id = 2, price_date = 737700, price_close = 100\<rparr>,
         \<lparr>price_company_id = 2, price_date = 737702, price_close = 90\<rparr>]" by code_simp
  have c2: "tail 252 (closes_of (price_window dbp [2, 3] 737412 737790) 2) = [100, 90]" by code_simp
  have c3: "tail 252 (closes_of (price_window dbp [2, 3] 737412 737790) 3) = []" by code_simp
  have v2: "company_vol (price_window dbp [2, 3] 737412 737790) 252 2 = NaN"
    by (simp add: company_vol_def c2 dropna_def fsub_def pd_std_def)
  have v3: "company_vol (price_window dbp [2, 3] 737412 737790) 252 3 = Num (2 / 10)"
    by (simp add: company_vol_def c3)
  have pne: "price_window dbp [2, 3] 737412 737790 \<noteq> []" by (simp add: p)
  have v: "get_volatility dbp [2, 3] 2021 252 = Inr [(2, NaN), (3, Num (2 / 10))]"
    using w pne by (simp add: get_volatility_def v2 v3 dict_of_def)
  then have c: "compute_weights dbp [2, 3] 2021 ''inverse_vol'' 252 252 = Inr [(''2'', NaN), (''3'', Num 1)]"
    by (simp add: compute_weights_def series_div_def pd_sum_def dropna_def str_keys_def dict_of_def s)
  from v c b show ?thesis by blast
qed

text \<open>
  Away from such inputs the weights are what the schemes intend.  For a non-empty list of
  distinct company ids and each of the four schemes, when the data of the scheme is usable
  (\<open>market_caps_usable\<close>, \<open>volatilities_usable\<close>, \<open>momentum_usable\<close>; nothing is asked for
  \<^verbatim>\<open>equal\<close>), \<^verbatim>\<open>compute_weights\<close> returns a mapping whose keys are the string forms of the
  ids, in order, whose values are non-negative numbers, and whose values sum to exactly 1
  in real arithmetic.
\<close>

lemma compute_weights_usable_data:
  assumes ne: "company_ids \<noteq> []" and dist: "distinct company_ids"
    and sch: "scheme \<in> {''equal'', ''market_cap'', ''inverse_vol'', ''momentum''}"
    and mc: "scheme = ''market_cap'' \<longrightarrow> market_caps_usable d company_ids year"
    and iv: "scheme = ''inverse_vol'' \<longrightarrow> volatilities_usable d company_ids year lookback_vol"
    and mo: "scheme = ''momentum'' \<longrightarrow> momentum_usable d company_ids year momentum_period"
  shows "\<exists>w. compute_weights d company_ids year scheme lookback_vol momentum_period = Inr w
      \<and> map fst w = map str_int company_ids
      \<and> (\<forall>v \<in> set (map snd w). \<exists>x. v = Num x \<and> 0 \<le> x)
      \<and> py_sum (map snd w) = Num 1"
proof -
  from sch consider (equal) "scheme = ''equal''" | (market_cap) "scheme = ''market_cap''"
    | (inverse_vol) "scheme = ''inverse_vol''" | (momentum) "scheme = ''momentum''" by blast
  then show ?thesis
  proof cases
    case equal
    with equal_scheme[OF dist ne] const_weights(2)[OF dist ne] show ?thesis by simp
  next
    case market_cap
    with mc ne obtain r where r: "get_market_caps d company_ids year = Inr (map (\<lambda>k. (k, Num (r k))) company_ids)"
      "\<forall>k \<in> set company_ids. 0 \<le> r k" "0 < sum_list (map r company_ids)"
      using market_caps_series by blast
    from market_cap ne r(1)
    have "compute_weights d company_ids year scheme lookback_vol momentum_period
        = Inr (str_keys (series_div (map (\<lambda>k. (k, Num (r k))) company_ids)
                 (pd_sum (map snd (map (\<lambda>k. (k, Num (r k))) company_ids)))))"
      by (simp add: compute_weights_def)
    with normalized_weights[OF dist r(2) r(3)] show ?thesis by simp
  next
    case inverse_vol
    with iv dist obtain v where v: "get_volatility d company_ids year lookback_vol
          = Inr (map (\<lambda>k. (k, Num (v k))) company_ids)"
      "\<forall>k \<in> set company_ids. 0 \<le> v k"
      using volatility_series by blast
    define r where "r = (\<lambda>k. 1 / (v k + 1 / 10 ^ 8))"
    have "\<And>k. k \<in> set company_ids \<Longrightarrow> fdiv (Num 1) (fadd (Num (v k)) (Num (1 / 10 ^ 8))) = Num (r k)"
    proof -
      fix k assume "k \<in> set company_ids"
      with v(2) have "0 \<le> v k" by blast
      then have "v k + 1 / 10 ^ 8 \<noteq> 0" by simp
      then show "fdiv (Num 1) (fadd (Num (v k)) (Num (1 / 10 ^ 8))) = Num (r k)"
        by (simp add: r_def)
    qed
    then have inv: "map (\<lambda>(k, x). (k, fdiv (Num 1) (fadd x (Num (1 / 10 ^ 8)))))
            (map (\<lambda>k. (k, Num (v k))) company_ids) = map (\<lambda>k. (k, Num (r k))) company_ids"
      by simp
    have "compute_weights d company_ids year scheme lookback_vol momentum_period
        = Inr (str_keys (series_div
            (map (\<lambda>(k, x). (k, fdiv (Num 1) (fadd x (Num (1 / 10 ^ 8)))))
               (map (\<lambda>k. (k, Num (v k))) company_ids))
            (pd_sum (map snd (map (\<lambda>(k, x). (k, fdiv (Num 1) (fadd x (Num (1 / 10 ^ 8)))))
               (map (\<lambda>k. (k, Num (v k))) company_ids))))))"
      using inverse_vol ne v(1) by (simp add: compute_weights_def Let_def)
    then have cw: "compute_weights d company_ids year scheme lookback_vol momentum_period
        = Inr (str_keys (series_div (map (\<lambda>k. (k, Num (r k))) company_ids)
                 (pd_sum (map snd (map (\<lambda>k. (k, Num (r k))) company_ids)))))"
      by (simp only: inv)
    have rpos: "\<forall>k \<in> set company_ids. 0 < r k"
    proof
      fix k assume "k \<in> set company_ids"
      with v(2) have "0 \<le> v k" by blast
      then have "0 < v k + 1 / 10 ^ 8" by simp
      then show "0 < r k" by (simp add: r_def)
    qed
    then have rn: "\<forall>k \<in> set company_ids. 0 \<le> r k" by (simp add: less_imp_le)
    from ne have "hd company_ids \<in> set company_ids" by simp
    with rn rpos have "0 < sum_list (map r company_ids)"
      by (intro sum_list_pos_member[of company_ids r "hd company_ids"]) simp_all
    with normalized_weights[OF dist rn] cw show ?thesis by simp
  next
    case momentum
    with mo dist obtain c where c: "mom_series d company_ids year momentum_period
          = Inr (map (\<lambda>k. (k, Num (c k))) company_ids)"
      "\<forall>k \<in> set company_ids. 0 \<le> c k"
      using momentum_series_distinct by blast
    have s: "pd_sum (map snd (map (\<lambda>k. (k, Num (c k))) company_ids)) = Num (sum_list (map c company_ids))"
      by (rule pd_sum_series_Num)
    show ?thesis
    proof (cases "0 < sum_list (map c company_ids)")
      case True
      with momentum ne c(1) s
      have "compute_weights d company_ids year scheme lookback_vol momentum_period
        = Inr (str_keys (series_div (map (\<lambda>k. (k, Num (c k))) company_ids)
                 (pd_sum (map snd (map (\<lambda>k. (k, Num (c k))) company_ids)))))"
        by (simp add: compute_weights_def)
      with normalized_weights[OF dist c(2) True] show ?thesis by simp
    next
      case False
      with momentum ne c(1) s
      have "compute_weights d company_ids year scheme lookback_vol momentum_period
        = Inr (str_keys (series_const (Num (1 / real (length company_ids))) company_ids))"
        by (simp add: compute_weights_def)
      with const_weights[OF dist ne] show ?thesis by simp
    qed
  qed
qed

section \<open>Casts and statistics\<close>

lemma index_of_nth: "distinct xs \<Longrightarrow> n < length xs \<Longrightarrow> index_of (xs ! n) xs = Some n"
proof (induction xs arbitrary: n)
  case Nil
  then show ?case by simp
next
  case (Cons x xs)
  show ?case
  proof (cases n)
    case 0
    then show ?thesis by simp
  next
    case (Suc m)
    with Cons.prems have "xs ! m \<noteq> x" by auto
    with Suc Cons show ?thesis by simp
  qed
qed

lemma digit_val_digit_char: "n < 10 \<Longrightarrow> digit_val (digit_char n) = Some n"
  unfolding digit_val_def digit_char_def by (rule index_of_nth) simp_all

lemma parse_digits_append:
  "parse_digits acc (xs @ [c]) =
     (case parse_digits acc xs of
        None \<Rightarrow> None
      | Some a \<Rightarrow> (case digit_val c of None \<Rightarrow> None | Some v \<Rightarrow> Some (a * 10 + v)))"
  by (induction xs arbitrary: acc) (auto split: option.splits)

lemma parse_digits_digits: "parse_digits 0 (digits n) = Some n"
proof (induction n rule: digits.induct)
  case (1 n)
  show ?case
  proof (cases "n < 10")
    case True
    then show ?thesis by (subst digits.simps) (simp add: digit_val_digit_char)
  next
    case False
    with 1 have "parse_digits 0 (digits (n div 10)) = Some (n div 10)" by simp
    moreover have "digit_val (digit_char (n mod 10)) = Some (n mod 10)"
      by (rule digit_val_digit_char) simp
    ultimately show ?thesis using False
      by (subst digits.simps) (simp add: parse_digits_append)
  qed
qed

lemma int_of_str_str_int: "int_of_str (str_int i) = Some i"
proof (cases "i < 0")
  case True
  then show ?thesis
    by (simp add: int_of_str_def str_int_def digits_ne parse_digits_digits)
next
  case False
  have "CHR ''-'' \<notin> set (digits (nat i))" using set_digits by fastforce
  then obtain c cs where d: "digits (nat i) = c # cs" "c \<noteq> CHR ''-''"
    using digits_ne[of "nat i"] by (cases "digits (nat i)") auto
  have "parse_digits 0 (c # cs) = Some (nat i)" using parse_digits_digits[of "nat i"] d(1) by simp
  with False d show ?thesis
    by (simp add: int_of_str_def str_int_def del: parse_digits.simps)
qed

lemma sql_int_company_key:
  "- (2 ^ 31) \<le> i \<Longrightarrow> i < 2 ^ 31 \<Longrightarrow> sql_int (StrKey (str_int i)) = Some i"
  by (simp add: int_of_str_str_int)

lemma finsort_Num: "finsort (Num x) (map Num ys) = map Num (insort x ys)"
  by (induction ys) simp_all

lemma fsort_Num: "foldr finsort (map Num xs) [] = map Num (sort xs)"
proof (induction xs)
  case Nil
  show ?case by simp
next
  case (Cons x xs)
  then show ?case by (simp add: finsort_Num)
qed

lemma pd_mean_Num: "xs \<noteq> [] \<Longrightarrow> pd_mean (map Num xs) = Num (spec_mean xs)"
  by (simp add: pd_mean_def dropna_Num foldl_fadd_Num spec_mean_def)

lemma pd_median_Num: "xs \<noteq> [] \<Longrightarrow> pd_median (map Num xs) = Num (spec_median xs)"
proof -
  assume ne: "xs \<noteq> []"
  let ?n = "length xs"
  have l: "length (sort xs) = ?n" by simp
  from ne have pos: "0 < ?n" by simp
  then have i1: "?n div 2 < length (sort xs)" by simp
  from pos have "?n div 2 - 1 < ?n" by arith
  then have i2: "?n div 2 - 1 < length (sort xs)" by simp
  from ne l have sne: "sort xs \<noteq> []" by (metis length_0_conv)
  show ?thesis
    using ne i1 i2 sne
    by (simp add: pd_median_def dropna_Num fsort_Num spec_median_def Let_def)
qed

lemma pd_std_spec:
  "pd_std (map Num xs) = (if 2 \<le> length xs then Num (spec_stdev xs) else NaN)"
proof (cases "2 \<le> length xs")
  case True
  have inf: "PInf \<notin> set (map Num xs)" "NInf \<notin> set (map Num xs)" by auto
  have tn: "map the_num (map Num xs) = xs" by (simp add: comp_def)
  show ?thesis
    using True inf unfolding pd_std_def dropna_Num Let_def tn spec_stdev_def spec_mean_def
    by (simp del: set_map)
next
  case False
  then show ?thesis by (simp add: pd_std_def dropna_Num)
qed

lemma compute_metrics_Num:
  assumes "xs \<noteq> []"
  shows "compute_metrics risk_free_rate (map Num xs) =
     \<lparr>mean_return = Some (Num (spec_mean xs * 252)),
      median_return = Some (Num (spec_median xs * 252)),
      volatility = Some (if 2 \<le> length xs then Num (spec_stdev xs * sqrt 252) else NaN),
      sharpe = (if 2 \<le> length xs \<and> 0 < spec_stdev xs * sqrt 252
                then Some (Num ((spec_mean xs * 252 - risk_free_rate) / (spec_stdev xs * sqrt 252)))
                else None)\<rparr>"
proof (cases "2 \<le> length xs")
  case True
  then show ?thesis using assms
    by (simp add: compute_metrics_def pd_mean_Num pd_median_Num pd_std_spec Let_def fsub_def)
next
  case False
  then show ?thesis using assms
    by (simp add: compute_metrics_def pd_mean_Num pd_median_Num pd_std_spec Let_def)
qed

lemma year_rows_empty:
  assumes keys: "\<forall>k \<in> set (map fst weights). \<exists>i. - (2 ^ 31) \<le> i \<and> i < 2 ^ 31
                    \<and> (k = IntKey i \<or> k = StrKey (str_int i))"
    and none: "\<forall>p \<in> set (prices d).
        days_before_year year + 1 \<le> price_date p \<and> price_date p \<le> days_before_year (year + 1)
        \<longrightarrow> (\<forall>k \<in> set (map fst weights). sql_int k \<noteq> Some (price_company_id p))"
  shows "None \<notin> set (map (sql_int \<circ> fst) weights)"
    and "year_rows d (map (the \<circ> sql_int \<circ> fst) weights) year = []"
proof -
  have some: "\<And>k. k \<in> set (map fst weights) \<Longrightarrow> \<exists>i. sql_int k = Some i"
  proof -
    fix k assume "k \<in> set (map fst weights)"
    with keys obtain i where "- (2 ^ 31) \<le> i" "i < 2 ^ 31" "k = IntKey i \<or> k = StrKey (str_int i)"
      by blast
    then show "\<exists>i. sql_int k = Some i" using sql_int_company_key by auto
  qed
  then show n: "None \<notin> set (map (sql_int \<circ> fst) weights)" by force
  have "\<And>p. p \<in> set (prices d) \<Longrightarrow>
       \<not> (price_company_id p \<in> set (map (the \<circ> sql_int \<circ> fst) weights)
          \<and> days_before_year year + 1 \<le> price_date p
          \<and> price_date p \<le> days_before_year (year + 1))"
  proof
    fix p assume p: "p \<in> set (prices d)"
      and c: "price_company_id p \<in> set (map (the \<circ> sql_int \<circ> fst) weights)
          \<and> days_before_year year + 1 \<le> price_date p
          \<and> price_date p \<le> days_before_year (year + 1)"
    then obtain kv where kv: "kv \<in> set weights" "price_company_id p = the (sql_int (fst kv))"
      by auto
    then have "fst kv \<in> set (map fst weights)" by simp
    moreover from this obtain i where "sql_int (fst kv) = Some i" using some by blast
    ultimately show False using none p c kv(2) by force
  qed
  then show "year_rows d (map (the \<circ> sql_int \<circ> fst) weights) year = []"
    by (simp add: year_rows_def filter_empty_conv)
qed

lemma string_keys_never_valid:
  "\<forall>k \<in> set (map fst weights). \<exists>s. k = StrKey s \<Longrightarrow> valid_weights weights cols = []"
  by (auto simp: valid_weights_def filter_empty_conv)

lemma string_keys_all_zero:
  assumes "\<forall>k \<in> set (map fst weights). \<exists>s. k = StrKey s"
    and "compute_portfolio_returns d weights year = Inr rets"
  shows "\<forall>v \<in> set (map snd rets). v = Num 0"
proof -
  have vw: "\<And>cols. valid_weights weights cols = []"
    using assms(1) by (rule string_keys_never_valid)
  from assms(2) show ?thesis
    by (auto simp: compute_portfolio_returns_def Let_def row_dot_def normalize_def vw
             split: if_splits sum.splits)
qed

section \<open>Portfolio returns and metrics\<close>

text \<open>
  Claim C6, at a failing input.  The weights are keyed by strings, as the annotation
  \<^verbatim>\<open>Dict[str, float]\<close> and the stored JSON have them; company 1 has closes 100, 110,
  121 on three days of 2021 and company 2 has none.  No string key is among the integer
  column labels, so \<^verbatim>\<open>valid_ids\<close> is empty and every daily portfolio return is 0.  With
  the same weights under integer keys, company 2 is dropped, company 1 is rescaled to
  weight 1.0 and the daily returns are its own, 0.1 and 0.1.
\<close>

theorem string_keyed_weights_give_zero_returns:
  "compute_portfolio_returns dbr [(StrKey ''1'', 1 / 2), (StrKey ''2'', 1 / 2)] 2021
     = Inr [(737792, Num 0), (737793, Num 0)]
   \<and> compute_portfolio_returns dbr [(IntKey 1, 1 / 2), (IntKey 2, 1 / 2)] 2021
     = Inr [(737792, Num (1 / 10)), (737793, Num (1 / 10))]"
  by code_simp


text \<open>
  Claim C7.  For a four-digit year and a weight mapping keyed by company ids (integers or
  their decimal strings), when no price row of the year belongs to a named company, the
  return series is empty and all four metrics are \<open>None\<close>.  For a non-empty series of
  numbers, the mean and median returns are the mean and the median times 252; with at
  least two returns the volatility is the sample standard deviation times \<open>sqrt 252\<close>, and
  the Sharpe ratio is \<open>(mean_return - risk_free_rate) / volatility\<close> exactly when the
  volatility is positive and \<open>None\<close> otherwise; with a single return the sample standard
  deviation and the volatility are not-a-number and the Sharpe ratio is \<open>None\<close>.
\<close>

theorem metrics_null_or_annualized:
  "(1000 \<le> year \<and> year \<le> 9999
     \<and> (\<forall>k \<in> set (map fst weights). \<exists>i. - (2 ^ 31) \<le> i \<and> i < 2 ^ 31
            \<and> (k = IntKey i \<or> k = StrKey (str_int i)))
     \<and> (\<forall>p \<in> set (prices d).
            days_before_year year + 1 \<le> price_date p \<and> price_date p \<le> days_before_year (year + 1)
            \<longrightarrow> (\<forall>k \<in> set (map fst weights). sql_int k \<noteq> Some (price_company_id p)))
     \<longrightarrow> compute_portfolio_returns d weights year = Inr []
       \<and> compute_metrics risk_free_rate []
           = \<lparr>mean_return = None, median_return = None, volatility = None, sharpe = None\<rparr>)
   \<and> (xs \<noteq> [] \<longrightarrow>
        compute_metrics risk_free_rate (map Num xs) =
          \<lparr>mean_return = Some (Num (spec_mean xs * 252)),
           median_return = Some (Num (spec_median xs * 252)),
           volatility = Some (if 2 \<le> length xs then Num (spec_stdev xs * sqrt 252) else NaN),
           sharpe = (if 2 \<le> length xs \<and> 0 < spec_stdev xs * sqrt 252
                     then Some (Num ((spec_mean xs * 252 - risk_free_rate) / (spec_stdev xs * sqrt 252)))
                     else None)\<rparr>)"
proof (intro conjI impI)
  assume h: "1000 \<le> year \<and> year \<le> 9999
     \<and> (\<forall>k \<in> set (map fst weights). \<exists>i. - (2 ^ 31) \<le> i \<and> i < 2 ^ 31
            \<and> (k = IntKey i \<or> k = StrKey (str_int i)))
     \<and> (\<forall>p \<in> set (prices d).
            days_before_year year + 1 \<le> price_date p \<and> price_date p \<le> days_before_year (year + 1)
            \<longrightarrow> (\<forall>k \<in> set (map fst weights). sql_int k \<noteq> Some (price_company_id p)))"
  then have n: "None \<notin> set (map (sql_int \<circ> fst) weights)"
    and e: "year_rows d (map (the \<circ> sql_int \<circ> fst) weights) year = []"
    using year_rows_empty[of weights d year] by blast+
  from h n e show "compute_portfolio_returns d weights year = Inr []"
    by (simp add: compute_portfolio_returns_def del: set_map)
  show "compute_metrics risk_free_rate []
           = \<lparr>mean_return = None, median_return = None, volatility = None, sharpe = None\<rparr>"
    by (simp add: compute_metrics_def)
next
  assume "xs \<noteq> []"
  then show "compute_metrics risk_free_rate (map Num xs) =
          \<lparr>mean_return = Some (Num (spec_mean xs * 252)),
           median_return = Some (Num (spec_median xs * 252)),
           volatility = Some (if 2 \<le> length xs then Num (spec_stdev xs * sqrt 252) else NaN),
           sharpe = (if 2 \<le> length xs \<and> 0 < spec_stdev xs * sqrt 252
                     then Some (Num ((spec_mean xs * 252 - risk_free_rate) / (spec_stdev xs * sqrt 252)))
                     else None)\<rparr>"
    by (rule compute_metrics_Num)
qed

theorem metrics_null_or_annualized_witness:
  "compute_portfolio_returns dbr [(StrKey ''2'', 1 / 2)] 2021 = Inr []
   \<and> compute_metrics (2 / 100) []
       = \<lparr>mean_return = None, median_return = None, volatility = None, sharpe = None\<rparr>
   \<and> mean_return (compute_metrics (2 / 100) (map Num [1 / 100, 3 / 100])) = Some (Num (504 / 100))
   \<and> median_return (compute_metrics (2 / 100) (map Num [1 / 100, 3 / 100])) = Some (Num (504 / 100))
   \<and> volatility (compute_metrics (2 / 100) (map Num [1 / 100, 3 / 100]))
       = Some (Num (spec_stdev [1 / 100, 3 / 100] * sqrt 252))
   \<and> sharpe (compute_metrics (2 / 100) (map Num [1 / 100, 3 / 100]))
       = Some (Num ((504 / 100 - 2 / 100) / (spec_stdev [1 / 100, 3 / 100] * sqrt 252)))
   \<and> volatility (compute_metrics (2 / 100) (map Num [1 / 100])) = Some NaN
   \<and> sharpe (compute_metrics (2 / 100) (map Num [1 / 100])) = None"
proof -
  have s: "str_int 2 = ''2''" by code_simp
  have k: "\<forall>k \<in> set (map fst [(StrKey ''2'', 1 / 2 :: real)]). \<exists>i. - (2 ^ 31) \<le> i \<and> i < 2 ^ 31
            \<and> (k = IntKey i \<or> k = StrKey (str_int i))"
    using s by (auto intro!: exI[of _ 2])
  have c: "int_of_str ''2'' = Some 2" by code_simp
  have p: "\<forall>p \<in> set (prices dbr).
            days_before_year 2021 + 1 \<le> price_date p \<and> price_date p \<le> days_before_year (2021 + 1)
            \<longrightarrow> (\<forall>k \<in> set (map fst [(StrKey ''2'', 1 / 2 :: real)]). sql_int k \<noteq> Some (price_company_id p))"
    by (simp add: dbr_def c)
  have m: "spec_mean [1 / 100, 3 / 100] * 252 = 504 / 100" by (simp add: spec_mean_def)
  have md: "spec_median [1 / 100, 3 / 100] * 252 = 504 / 100" by (simp add: spec_median_def)
  have sd: "0 < spec_stdev [1 / 100, 3 / 100] * sqrt 252"
    by (simp add: spec_stdev_def spec_mean_def power2_eq_square)
  note th1 = metrics_null_or_annualized[of 2021 "[(StrKey ''2'', 1 / 2)]" dbr "2 / 100" "[1 / 100, 3 / 100]"]
  note th2 = metrics_null_or_annualized[of 2021 "[(StrKey ''2'', 1 / 2)]" dbr "2 / 100" "[1 / 100]"]
  from th1 k p have a: "compute_portfolio_returns dbr [(StrKey ''2'', 1 / 2)] 2021 = Inr []
     \<and> compute_metrics (2 / 100) []
       = \<lparr>mean_return = None, median_return = None, volatility = None, sharpe = None\<rparr>"
    by simp
  from th1 have "compute_metrics (2 / 100) (map Num [1 / 100, 3 / 100]) =
          \<lparr>mean_return = Some (Num (spec_mean [1 / 100, 3 / 100] * 252)),
           median_return = Some (Num (spec_median [1 / 100, 3 / 100] * 252)),
           volatility = Some (Num (spec_stdev [1 / 100, 3 / 100] * sqrt 252)),
           sharpe = Some (Num ((spec_mean [1 / 100, 3 / 100] * 252 - 2 / 100)
                                / (spec_stdev [1 / 100, 3 / 100] * sqrt 252)))\<rparr>"
    using sd by simp
  then have b: "mean_return (compute_metrics (2 / 100) (map Num [1 / 100, 3 / 100])) = Some (Num (504 / 100))
   \<and> median_return (compute_metrics (2 / 100) (map Num [1 / 100, 3 / 100])) = Some (Num (504 / 100))
   \<and> volatility (compute_metrics (2 / 100) (map Num [1 / 100, 3 / 100]))
       = Some (Num (spec_stdev [1 / 100, 3 / 100] * sqrt 252))
   \<and> sharpe (compute_metrics (2 / 100) (map Num [1 / 100, 3 / 100]))
       = Some (Num ((504 / 100 - 2 / 100) / (spec_stdev [1 / 100, 3 / 100] * sqrt 252)))"
    by (simp only: m md metrics.simps)
  from th2 have "volatility (compute_metrics (2 / 100) (map Num [1 / 100])) = Some NaN
   \<and> sharpe (compute_metrics (2 / 100) (map Num [1 / 100])) = None"
    by simp
  with a b show ?thesis by blast
qed


end
